theory Spec2Isabelle
  imports Complex_Main "HOL-Library.Multiset"
begin

section \<open>Python primitives used by the document-chat agent\<close>

subsection \<open>Lists and slices\<close>

text \<open>The slice \<^verbatim>\<open>xs[::2]\<close>: the elements at positions 0, 2, 4, ...\<close>

fun slice_step2 :: "'a list \<Rightarrow> 'a list" where
  "slice_step2 [] = []"
| "slice_step2 [x] = [x]"
| "slice_step2 (x # y # xs) = x # slice_step2 xs"

text \<open>The slice \<^verbatim>\<open>xs[1::2]\<close>: the elements at positions 1, 3, 5, ...\<close>

definition slice_from1_step2 :: "'a list \<Rightarrow> 'a list" where
  "slice_from1_step2 xs = (case xs of [] \<Rightarrow> [] | _ # ys \<Rightarrow> slice_step2 ys)"

text \<open>
  The slice \<^verbatim>\<open>xs[:n]\<close> for a Python integer \<open>n\<close>: the first \<open>n\<close> elements when
  \<open>n\<close> is not negative, all but the last \<open>-n\<close> elements otherwise.
\<close>

definition slice_to :: "int \<Rightarrow> 'a list \<Rightarrow> 'a list" where
  "slice_to n xs = (if 0 \<le> n then take (nat n) xs else take (length xs - nat (- n)) xs)"

subsection \<open>Dictionaries\<close>

text \<open>
  A Python dictionary keeps its keys in the order of their first insertion; storing under
  a key that is present replaces the value and leaves the position alone. It is an
  association list with one pair per key.
\<close>

fun dict_set :: "('k \<times> 'v) list \<Rightarrow> 'k \<Rightarrow> 'v \<Rightarrow> ('k \<times> 'v) list" where
  "dict_set [] k v = [(k, v)]"
| "dict_set ((k', v') # d) k v =
     (if k' = k then (k, v) # d else (k', v') # dict_set d k v)"

text \<open>The comprehension \<^verbatim>\<open>{kf(x): vf(x) for x in xs}\<close> stores the pairs from left to right.\<close>

definition dict_comprehension :: "('a \<Rightarrow> 'k) \<Rightarrow> ('a \<Rightarrow> 'v) \<Rightarrow> 'a list \<Rightarrow> ('k \<times> 'v) list" where
  "dict_comprehension kf vf xs = foldl (\<lambda>d x. dict_set d (kf x) (vf x)) [] xs"

definition dict_values :: "('k \<times> 'v) list \<Rightarrow> 'v list" where
  "dict_values d = map snd d"

subsection \<open>Sorting and minimum by key\<close>

text \<open>
  Floating-point numbers (float32 and float64 of numpy and Python) are values of a type
  \<open>'f\<close> that is left open; \<open>lt\<close> is their comparison \<^verbatim>\<open>x < y\<close>, which is false
  whenever one side is NaN.

  \<^verbatim>\<open>sorted(xs, key=key, reverse=True)\<close>: Python's sort compares keys with \<^verbatim>\<open><\<close> only,
  is stable and stays stable with \<^verbatim>\<open>reverse=True\<close>. Every element is inserted, in the
  order of the input, behind all elements whose key is not smaller than its own. For keys
  that \<^verbatim>\<open><\<close> orders up to ties this is the result of Python's sort; with a NaN among
  the keys Python's result depends on the comparisons its sort happens to make.
\<close>

fun insert_desc :: "('k \<Rightarrow> 'k \<Rightarrow> bool) \<Rightarrow> ('a \<Rightarrow> 'k) \<Rightarrow> 'a \<Rightarrow> 'a list \<Rightarrow> 'a list" where
  "insert_desc lt key x [] = [x]"
| "insert_desc lt key x (y # ys) =
     (if lt (key y) (key x) then x # y # ys else y # insert_desc lt key x ys)"

definition sorted_reverse :: "('k \<Rightarrow> 'k \<Rightarrow> bool) \<Rightarrow> ('a \<Rightarrow> 'k) \<Rightarrow> 'a list \<Rightarrow> 'a list" where
  "sorted_reverse lt key xs = foldl (\<lambda>sorted x. insert_desc lt key x sorted) [] xs"

text \<open>
  \<^verbatim>\<open>min(xs, key=key)\<close> on a list with first element \<open>best\<close>: the running best is
  replaced only by a strictly smaller key, so the first minimal element wins.
\<close>

fun min_key :: "('k \<Rightarrow> 'k \<Rightarrow> bool) \<Rightarrow> ('a \<Rightarrow> 'k) \<Rightarrow> 'a \<Rightarrow> 'a list \<Rightarrow> 'a" where
  "min_key lt key best [] = best"
| "min_key lt key best (y # ys) =
     min_key lt key (if lt (key y) (key best) then y else best) ys"

text \<open>
  On the set \<open>S\<close> the comparison \<open>lt\<close> is a strict order up to ties: irreflexive,
  transitive, and not being smaller is transitive. So it is for \<^verbatim>\<open><\<close> on floats
  among which there is no NaN.
\<close>

definition ordered_on :: "('k \<Rightarrow> 'k \<Rightarrow> bool) \<Rightarrow> 'k set \<Rightarrow> bool" where
  "ordered_on lt S \<longleftrightarrow>
     (\<forall>a \<in> S. \<not> lt a a)
     \<and> (\<forall>a \<in> S. \<forall>b \<in> S. \<forall>c \<in> S. lt a b \<and> lt b c \<longrightarrow> lt a c)
     \<and> (\<forall>a \<in> S. \<forall>b \<in> S. \<forall>c \<in> S. \<not> lt a b \<and> \<not> lt b c \<longrightarrow> \<not> lt a c)"


subsection \<open>Strings\<close>

text \<open>
  A Python string is a sequence of Unicode code points. \<open>str\<close> gives the string of a
  literal of the source.
\<close>

type_synonym pystr = "nat list"

definition str :: "string \<Rightarrow> pystr" where
  "str s = map of_char s"

text \<open>
  The code points that \<^verbatim>\<open>str.strip()\<close> removes (\<^verbatim>\<open>str.isspace\<close>): U+0009 to U+000D,
  U+001C to U+0020, U+0085, U+00A0, U+1680, U+2000 to U+200A, U+2028, U+2029, U+202F,
  U+205F and U+3000.
\<close>

definition is_space :: "nat \<Rightarrow> bool" where
  "is_space c =
     ((0x09 \<le> c \<and> c \<le> 0x0D) \<or> (0x1C \<le> c \<and> c \<le> 0x20) \<or> c = 0x85 \<or> c = 0xA0
      \<or> c = 0x1680 \<or> (0x2000 \<le> c \<and> c \<le> 0x200A) \<or> c = 0x2028 \<or> c = 0x2029
      \<or> c = 0x202F \<or> c = 0x205F \<or> c = 0x3000)"

definition strip :: "pystr \<Rightarrow> pystr" where
  "strip s = rev (dropWhile is_space (rev (dropWhile is_space s)))"

definition startswith :: "pystr \<Rightarrow> pystr \<Rightarrow> bool" where
  "startswith s p = (take (length p) s = p)"

text \<open>
  \<^verbatim>\<open>s.split(sep, maxsplit=1)\<close> for a separator that is not empty (the source passes the
  literal \<^verbatim>\<open>"SOURCE:"\<close>): the text before and after the leftmost occurrence of the
  separator, or the whole text when it does not occur.
\<close>

fun split_first :: "pystr \<Rightarrow> pystr \<Rightarrow> (pystr \<times> pystr) option" where
  "split_first sep [] = None"
| "split_first sep (c # cs) =
     (if take (length sep) (c # cs) = sep then Some ([], drop (length sep) (c # cs))
      else (case split_first sep cs of None \<Rightarrow> None | Some (a, b) \<Rightarrow> Some (c # a, b)))"

definition split_maxsplit1 :: "pystr \<Rightarrow> pystr \<Rightarrow> pystr list" where
  "split_maxsplit1 sep s = (case split_first sep s of None \<Rightarrow> [s] | Some (a, b) \<Rightarrow> [a, b])"

text \<open>
  \<^verbatim>\<open>s.split(sep)\<close> for the separator \<open>c0 # sep\<close> (the source passes the literal
  of two line feeds): \<open>cur\<close> holds, reversed, the piece being read.
\<close>

fun split_acc :: "nat \<Rightarrow> pystr \<Rightarrow> pystr \<Rightarrow> pystr \<Rightarrow> pystr list" where
  "split_acc c0 sep cur [] = [rev cur]"
| "split_acc c0 sep cur (c # cs) =
     (if c = c0 \<and> take (length sep) cs = sep
      then rev cur # split_acc c0 sep [] (drop (length sep) cs)
      else split_acc c0 sep (c # cur) cs)"

text \<open>\<^verbatim>\<open>sep.join(xs)\<close>\<close>

fun join :: "pystr \<Rightarrow> pystr list \<Rightarrow> pystr" where
  "join sep [] = []"
| "join sep [x] = x"
| "join sep (x # y # xs) = x @ sep @ join sep (y # xs)"

section \<open>Data model\<close>

text \<open>
  \<^verbatim>\<open>Document\<close> and \<^verbatim>\<open>DocMetaData\<close> (declared in \<^verbatim>\<open>langroid.mytypes\<close>). A subclass
  of \<^verbatim>\<open>Document\<close> may declare further fields; \<open>extra_fields\<close> holds them by name, so
  that \<^verbatim>\<open>__fields__\<close> is \<open>content\<close>, \<open>metadata\<close> and the names in \<open>extra_fields\<close>.
  \<^verbatim>\<open>DocMetaData.source\<close> is declared a string.
\<close>

record doc_meta =
  source :: pystr
  is_chunk :: bool
  meta_id :: pystr
  window_ids :: "pystr list"

record document =
  content :: pystr
  metadata :: doc_meta
  extra_fields :: "(string \<times> pystr) list"

definition fields_of :: "document \<Rightarrow> string set" where
  "fields_of d = {''content'', ''metadata''} \<union> set (map fst (extra_fields d))"

datatype error = ValueError string | ImportError | IndexError | AttributeError

datatype entity = LLM | USER | AGENT | SYSTEM

text \<open>\<^verbatim>\<open>ChatDocument\<close> with the fields of \<^verbatim>\<open>ChatDocMetaData\<close> that the agent sets.\<close>

record chat_document =
  cd_content :: pystr
  cd_source :: pystr
  cd_sender :: entity
  cd_cached :: bool

text \<open>
  What a call leaves behind besides its result: the warnings it logs and the calls it
  makes to the language model, in order. Console output is not modelled.
\<close>

datatype event =
    Warning string
  | LLM_standalone
  | LLM_hypothetical
  | LLM_rephrase
  | LLM_extract_batch
  | LLM_summary

subsection \<open>Collaborators outside the module\<close>

text \<open>
  The vector store (\<^verbatim>\<open>self.vecdb\<close>): semantic search, the store's own context-window
  expansion and the embedding function of its embedding model. The scores of the store
  are only carried along.
\<close>

record 'f vecdb =
  similar_texts_with_scores :: "pystr \<Rightarrow> int \<Rightarrow> pystr option \<Rightarrow> (document \<times> real) list"
  vecdb_add_context_window :: "(document \<times> real) list \<Rightarrow> int \<Rightarrow> (document \<times> real) list"
  embedding_fn :: "pystr list \<Rightarrow> 'f list list"

text \<open>The language model object (\<^verbatim>\<open>self.llm\<close>).\<close>

record llm =
  followup_to_standalone :: "(pystr \<times> pystr) list \<Rightarrow> pystr \<Rightarrow> pystr"

text \<open>
  Everything else the agent calls and its module does not define, taken as parameters:
  the constant \<^verbatim>\<open>NO_ANSWER\<close>, \<^verbatim>\<open>Document.id()\<close>, the two search functions of
  \<^verbatim>\<open>langroid.parsing.search\<close>, the cross-encoder of \<^verbatim>\<open>sentence_transformers\<close>
  (\<open>None\<close> when the import fails; given the model name and the (query, passage) pairs it
  returns the logits), \<^verbatim>\<open>run_batch_tasks\<close> on the relevance extractor (given the query, the
  segment length and the passage contents it returns one answer per passage, \<open>None\<close> for
  no answer), the two response methods of \<^verbatim>\<open>ChatAgent\<close> (content and the
  \<^verbatim>\<open>cached\<close> flag of the response) and the formatting of the summary prompt.

  The arithmetic of floating-point numbers is a parameter as well: the comparison
  \<^verbatim>\<open>x < y\<close>, the rounded operations \<^verbatim>\<open>x + y\<close>, \<^verbatim>\<open>x * y\<close>, \<^verbatim>\<open>x / y\<close> and \<^verbatim>\<open>-x\<close>,
  \<^verbatim>\<open>np.exp\<close>, the float of a Python integer, and for vectors the product \<^verbatim>\<open>a @ b\<close> and
  \<^verbatim>\<open>np.linalg.norm\<close>.
\<close>

record 'f ext =
  NO_ANSWER :: pystr
  doc_id :: "document \<Rightarrow> pystr"
  find_closest_matches_with_bm25 ::
    "document list \<Rightarrow> document list \<Rightarrow> pystr \<Rightarrow> int \<Rightarrow> (document \<times> real) list"
  find_fuzzy_matches_in_docs ::
    "pystr \<Rightarrow> document list \<Rightarrow> document list \<Rightarrow> int \<Rightarrow> int \<Rightarrow> int \<Rightarrow> document list"
  cross_encoder :: "(pystr \<Rightarrow> (pystr \<times> pystr) list \<Rightarrow> 'f list) option"
  run_batch_tasks :: "pystr \<Rightarrow> int \<Rightarrow> pystr list \<Rightarrow> pystr option list"
  llm_response_forget :: "pystr \<Rightarrow> pystr \<times> bool"
  llm_response_temp_context :: "pystr \<Rightarrow> pystr \<Rightarrow> pystr \<times> bool"
  format_summarize_prompt :: "pystr \<Rightarrow> pystr \<Rightarrow> pystr"
  fl_lt :: "'f \<Rightarrow> 'f \<Rightarrow> bool"
  fl_add :: "'f \<Rightarrow> 'f \<Rightarrow> 'f"
  fl_mul :: "'f \<Rightarrow> 'f \<Rightarrow> 'f"
  fl_div :: "'f \<Rightarrow> 'f \<Rightarrow> 'f"
  fl_neg :: "'f \<Rightarrow> 'f"
  fl_exp :: "'f \<Rightarrow> 'f"
  fl_of_int :: "int \<Rightarrow> 'f"
  np_dot :: "'f list \<Rightarrow> 'f list \<Rightarrow> 'f"
  np_norm :: "'f list \<Rightarrow> 'f"

subsection \<open>Configuration and agent state\<close>

text \<open>\<^verbatim>\<open>RelevanceExtractorAgentConfig\<close>: the fields that \<^verbatim>\<open>get_verbatim_extracts\<close> sets.\<close>

record extractor_config =
  rx_llm_set :: bool
  rx_query :: pystr
  rx_segment_length :: int
  rx_stream :: bool

text \<open>\<^verbatim>\<open>DocChatAgentConfig\<close>; \<open>n_similar_docs\<close> is \<^verbatim>\<open>config.parsing.n_similar_docs\<close>.\<close>

record config =
  retrieve_only :: bool
  extraction_granularity :: int
  filter_cond :: "pystr option"
  conversation_mode :: bool
  assistant_mode :: bool
  hypothetical_answer :: bool
  n_query_rephrases :: int
  n_neighbor_chunks :: int
  n_fuzzy_neighbor_words :: int
  use_fuzzy_match :: bool
  use_bm25_search :: bool
  cross_encoder_reranking_model :: pystr
  rerank_diversity :: bool
  rerank_periphery :: bool
  relevance_extractor_config :: "extractor_config option"
  n_similar_docs :: int

text \<open>
  The agent: its configuration, the vector store and the language model (each may be
  \<^verbatim>\<open>None\<close>), the chunk corpus (each list may be \<^verbatim>\<open>None\<close>), the dialog so far and the
  last response.
\<close>

record 'f agent =
  cfg :: config
  vecdb :: "'f vecdb option"
  llm :: "llm option"
  chunked_docs :: "document list option"
  chunked_docs_clean :: "document list option"
  dialog :: "(pystr \<times> pystr) list"
  response :: "chat_document option"

section \<open>The agent's operations\<close>

subsection \<open>Prompt text\<close>

definition spaces :: "nat \<Rightarrow> pystr" where
  "spaces n = replicate n 0x20"

definition newline :: pystr where
  "newline = [0x0A]"

text \<open>The decimal text of a Python integer, as an f-string prints it.\<close>

fun str_of_nat :: "nat \<Rightarrow> pystr" where
  "str_of_nat n =
     (if n < 10 then [48 + n]
      else str_of_nat (n div 10) @ [48 + n mod 10])"

definition str_of_int :: "int \<Rightarrow> pystr" where
  "str_of_int i = (if i < 0 then 0x2D # str_of_nat (nat (- i)) else str_of_nat (nat i))"

text \<open>
  \<^verbatim>\<open>doc_string\<close>: one block per document, the blocks joined by a line feed. The
  f-string of a block is a line feed, then content and source each on a line of its
  own behind 16 spaces, then 16 spaces.
\<close>

definition doc_string :: "document list \<Rightarrow> pystr" where
  "doc_string docs =
     (let contents = map (\<lambda>d. str ''Extract: '' @ content d) docs;
          sources = map (\<lambda>d. source (metadata d)) docs;
          sources = map (\<lambda>s. str ''Source: '' @ s) sources
      in join newline
           (map (\<lambda>(content, source).
                   newline @ spaces 16 @ content @ newline @ spaces 16 @ source
                     @ newline @ spaces 16)
                (zip contents sources)))"

definition hypothetical_prompt :: "pystr \<Rightarrow> pystr" where
  "hypothetical_prompt query =
     newline @ spaces 20 @ str ''Give an ideal answer to the following query,''
     @ newline @ spaces 20 @ str ''in up to 3 sentences. Do not explain yourself,''
     @ newline @ spaces 20 @ str ''and do not apologize, just show''
     @ newline @ spaces 20
       @ str ''a good possible answer, even if you do not have any information.''
     @ newline @ spaces 20 @ str ''Preface your answer with '' @ [0x22]
       @ str ''HYPOTHETICAL ANSWER: '' @ [0x22]
     @ newline
     @ newline @ spaces 20 @ str ''QUERY: '' @ query
     @ newline @ spaces 20"

definition rephrase_prompt :: "int \<Rightarrow> pystr \<Rightarrow> pystr" where
  "rephrase_prompt n query =
     newline @ spaces 24 @ str ''Rephrase the following query in '' @ str_of_int n
     @ newline @ spaces 24 @ str ''different equivalent ways, separate them with 2 newlines.''
     @ newline @ spaces 24 @ str ''QUERY: '' @ query
     @ newline @ spaces 24"

subsection \<open>Answer synthesis\<close>

text \<open>
  The parsing at the end of \<^verbatim>\<open>get_summary_answer\<close>, on the stripped response: the
  pair of the local variables \<^verbatim>\<open>content\<close> and \<^verbatim>\<open>sources\<close>.
\<close>

definition parse_final_answer :: "pystr \<Rightarrow> pystr \<times> pystr" where
  "parse_final_answer final_answer =
     (if startswith final_answer (str ''SOURCE'') then (final_answer, final_answer)
      else (let parts = split_maxsplit1 (str ''SOURCE:'') final_answer
            in if length parts > 1 then (strip (parts ! 0), strip (parts ! 1))
               else (final_answer, [])))"

definition get_summary_answer ::
  "'f ext \<Rightarrow> 'f agent \<Rightarrow> pystr \<Rightarrow> document list \<Rightarrow> chat_document \<times> event list" where
  "get_summary_answer X A question passages =
     (let passages_str = doc_string passages;
          final_prompt = format_summarize_prompt X (str ''Question:'' @ question) passages_str;
          answer_doc = (if conversation_mode (cfg A)
                        then llm_response_temp_context X question final_prompt
                        else llm_response_forget X final_prompt);
          final_answer = strip (fst answer_doc);
          (content, sources) = parse_final_answer final_answer
      in (\<lparr>cd_content = content, cd_source = str ''SOURCE: '' @ sources,
           cd_sender = LLM, cd_cached = snd answer_doc\<rparr>,
          [LLM_summary]))"

subsection \<open>Query expansion\<close>

definition llm_hypothetical_answer ::
  "'f ext \<Rightarrow> 'f agent \<Rightarrow> pystr \<Rightarrow> (error + pystr) \<times> event list" where
  "llm_hypothetical_answer X A query =
     (case llm A of
        None \<Rightarrow> (Inl (ValueError ''LLM not set''), [])
      | Some _ \<Rightarrow> (Inr (fst (llm_response_forget X (hypothetical_prompt query))),
                   [LLM_hypothetical]))"

definition llm_rephrase_query ::
  "'f ext \<Rightarrow> 'f agent \<Rightarrow> pystr \<Rightarrow> (error + pystr list) \<times> event list" where
  "llm_rephrase_query X A query =
     (case llm A of
        None \<Rightarrow> (Inl (ValueError ''LLM not set''), [])
      | Some _ \<Rightarrow>
          (Inr (split_acc 0x0A newline []
                  (fst (llm_response_forget X
                          (rephrase_prompt (n_query_rephrases (cfg A)) query)))),
           [LLM_rephrase]))"

subsection \<open>Lexical and fuzzy matchers\<close>

definition get_similar_chunks_bm25 ::
  "'f ext \<Rightarrow> 'f agent \<Rightarrow> pystr \<Rightarrow> int \<Rightarrow> (document \<times> real) list \<times> event list" where
  "get_similar_chunks_bm25 X A query multiple =
     (case chunked_docs A of
        None \<Rightarrow> ([], [Warning ''No chunked docs; cannot use bm25-similarity''])
      | Some docs \<Rightarrow>
          if length docs = 0
          then ([], [Warning ''No chunked docs; cannot use bm25-similarity''])
          else (case chunked_docs_clean A of
                  None \<Rightarrow> ([], [Warning ''No cleaned chunked docs; cannot use bm25-similarity''])
                | Some docs_clean \<Rightarrow>
                    if length docs_clean = 0
                    then ([], [Warning ''No cleaned chunked docs; cannot use bm25-similarity''])
                    else (find_closest_matches_with_bm25 X docs docs_clean query
                            (n_similar_docs (cfg A) * multiple), [])))"

definition get_fuzzy_matches ::
  "'f ext \<Rightarrow> 'f agent \<Rightarrow> pystr \<Rightarrow> int \<Rightarrow> document list \<times> event list" where
  "get_fuzzy_matches X A query multiple =
     (case chunked_docs A of
        None \<Rightarrow> ([], [Warning ''No chunked docs; cannot use fuzzy matching''])
      | Some docs \<Rightarrow>
          (case chunked_docs_clean A of
             None \<Rightarrow> ([], [Warning ''No cleaned chunked docs; cannot use fuzzy-search''])
           | Some docs_clean \<Rightarrow>
               (find_fuzzy_matches_in_docs X query docs docs_clean
                  (n_similar_docs (cfg A) * multiple)
                  (n_fuzzy_neighbor_words (cfg A))
                  (n_fuzzy_neighbor_words (cfg A)), [])))"

subsection \<open>Rerankers\<close>

text \<open>
  The logistic function that \<^verbatim>\<open>rerank_with_cross_encoder\<close> applies to each logit,
  \<^verbatim>\<open>1.0 / (1 + np.exp(-scores))\<close>, in the floating-point arithmetic of \<open>X\<close>; every
  operation rounds, so that large logits all give the score 1.
\<close>

definition logistic :: "'f ext \<Rightarrow> 'f \<Rightarrow> 'f" where
  "logistic X x = fl_div X (fl_of_int X 1) (fl_add X (fl_of_int X 1) (fl_exp X (fl_neg X x)))"

text \<open>
  \<^verbatim>\<open>rerank_with_cross_encoder\<close>: an \<^verbatim>\<open>ImportError\<close> when the cross-encoder cannot be
  imported; \<^verbatim>\<open>zip\<close> stops at the shorter of scores and passages.
\<close>

definition rerank_with_cross_encoder ::
  "'f ext \<Rightarrow> 'f agent \<Rightarrow> pystr \<Rightarrow> document list \<Rightarrow> error + document list" where
  "rerank_with_cross_encoder X A query passages =
     (case cross_encoder X of
        None \<Rightarrow> Inl ImportError
      | Some CrossEncoder \<Rightarrow>
          (let model = CrossEncoder (cross_encoder_reranking_model (cfg A));
               scores = model (map (\<lambda>p. (query, content p)) passages);
               scores = map (logistic X) scores;
               sorted_pairs = sorted_reverse (fl_lt X) fst (zip scores passages)
           in Inr (map snd (slice_to (n_similar_docs (cfg A)) sorted_pairs))))"

text \<open>
  The helper \<^verbatim>\<open>avg_similarity_to_result\<close>: the cosine similarity of two embedding
  vectors is \<^verbatim>\<open>(a @ b) / (norm(a) * norm(b))\<close>; \<^verbatim>\<open>sum\<close> adds the similarities from
  left to right to the integer 0, and the sum is divided by the length of the list. All
  of it in the floating-point arithmetic of \<open>X\<close>, where a division by zero is no error.
\<close>

definition avg_similarity_to_result :: "'f ext \<Rightarrow> 'f list list \<Rightarrow> nat \<Rightarrow> nat list \<Rightarrow> 'f" where
  "avg_similarity_to_result X embs_arr i result =
     fl_div X
       (foldl (fl_add X) (fl_of_int X 0)
          (map (\<lambda>j. fl_div X (np_dot X (embs_arr ! i) (embs_arr ! j))
                       (fl_mul X (np_norm X (embs_arr ! i)) (np_norm X (embs_arr ! j))))
             result))
       (fl_of_int X (int (length result)))"

lemma min_key_in: "min_key lt key best ys \<in> set (best # ys)"
  by (induction ys arbitrary: best) auto

text \<open>
  The \<^verbatim>\<open>while indices:\<close> loop of \<^verbatim>\<open>rerank_with_diversity\<close>: \<open>avg i result\<close> is the
  average similarity of item \<open>i\<close> to the items selected so far.
\<close>

function diversity_loop ::
  "('f \<Rightarrow> 'f \<Rightarrow> bool) \<Rightarrow> (nat \<Rightarrow> nat list \<Rightarrow> 'f) \<Rightarrow> nat list \<Rightarrow> nat list \<Rightarrow> nat list" where
  "diversity_loop lt avg [] result = result"
| "diversity_loop lt avg (i # indices) result =
     (let least_similar_item = min_key lt (\<lambda>k. avg k result) i indices
      in diversity_loop lt avg (remove1 least_similar_item (i # indices))
           (result @ [least_similar_item]))"
  by pat_completeness auto
termination
proof (relation "measure (\<lambda>(lt, avg, indices, result). length indices)")
  show "wf (measure (\<lambda>(lt, avg, indices, result). length indices))"
    by simp
next
  fix lt :: "'f \<Rightarrow> 'f \<Rightarrow> bool" and avg :: "nat \<Rightarrow> nat list \<Rightarrow> 'f" and i indices result x
  assume "x = min_key lt (\<lambda>k. avg k result) i indices"
  then have "x \<in> set (i # indices)"
    using min_key_in by metis
  then have "length (remove1 x (i # indices)) < length (i # indices)"
    by (simp only: length_remove1) simp
  then show "((lt, avg, remove1 x (i # indices), result @ [x]), (lt, avg, i # indices, result))
             \<in> measure (\<lambda>(lt, avg, indices, result). length indices)"
    by simp
qed

text \<open>
  \<^verbatim>\<open>rerank_with_diversity\<close>. Without a vector store it logs a warning and returns its
  input. Otherwise \<^verbatim>\<open>indices.pop(0)\<close> raises \<^verbatim>\<open>IndexError\<close> on an empty list, and with
  two passages or more the first round of the loop reads the embedding of every
  passage against the first: numpy raises \<^verbatim>\<open>ValueError\<close> on vectors of different
  lengths and the list raises \<^verbatim>\<open>IndexError\<close> on a missing embedding.
\<close>

definition rerank_with_diversity ::
  "'f ext \<Rightarrow> 'f agent \<Rightarrow> document list \<Rightarrow> (error + document list) \<times> event list" where
  "rerank_with_diversity X A passages =
     (case vecdb A of
        None \<Rightarrow> (Inr passages, [Warning ''No vecdb; cannot use rerank_with_diversity''])
      | Some vdb \<Rightarrow>
          (let embs = embedding_fn vdb (map content passages);
               n = length passages
           in if n = 0 then (Inl IndexError, [])
              else if 2 \<le> n \<and> \<not> list_all (\<lambda>e. length e = length (hd embs)) (take n embs)
              then (Inl (ValueError ''shapes not aligned''), [])
              else if 2 \<le> n \<and> length embs < n then (Inl IndexError, [])
              else (Inr (map (\<lambda>i. passages ! i)
                           (diversity_loop (fl_lt X) (avg_similarity_to_result X embs)
                              [1..<n] [0])),
                    [])))"

definition rerank_to_periphery :: "'a list \<Rightarrow> 'a list" where
  "rerank_to_periphery passages =
     (let odds = slice_step2 passages;
          evens = rev (slice_from1_step2 passages)
      in odds @ evens)"

subsection \<open>Context window and semantic search\<close>

definition add_context_window ::
  "'f agent \<Rightarrow> (document \<times> real) list \<Rightarrow> (document \<times> real) list" where
  "add_context_window A docs_scores =
     (case vecdb A of
        None \<Rightarrow> docs_scores
      | Some vdb \<Rightarrow>
          if n_neighbor_chunks (cfg A) = 0 then docs_scores
          else if length docs_scores = 0 then []
          else if fields_of (fst (docs_scores ! 0)) \<noteq> {''content'', ''metadata''}
          then docs_scores
          else vecdb_add_context_window vdb docs_scores (n_neighbor_chunks (cfg A)))"

definition get_semantic_search_results ::
  "'f agent \<Rightarrow> pystr \<Rightarrow> int \<Rightarrow> error + (document \<times> real) list" where
  "get_semantic_search_results A query k =
     (case vecdb A of
        None \<Rightarrow> Inl (ValueError ''VecDB not set'')
      | Some vdb \<Rightarrow> Inr (similar_texts_with_scores vdb query k (filter_cond (cfg A))))"

subsection \<open>Retrieval orchestrator\<close>

text \<open>
  The loop \<^verbatim>\<open>for q in [query] + query_proxies: docs_and_scores += ...\<close> of
  \<^verbatim>\<open>get_relevant_chunks\<close>.
\<close>

fun semantic_hits ::
  "'f agent \<Rightarrow> int \<Rightarrow> pystr list \<Rightarrow> (document \<times> real) list
     \<Rightarrow> error + (document \<times> real) list" where
  "semantic_hits A k [] docs_and_scores = Inr docs_and_scores"
| "semantic_hits A k (q # qs) docs_and_scores =
     (case get_semantic_search_results A q k of
        Inl e \<Rightarrow> Inl e
      | Inr hits \<Rightarrow> semantic_hits A k qs (docs_and_scores @ hits))"

text \<open>
  \<^verbatim>\<open>id2doc_score = {d.id(): (d, s) for d, s in docs_and_scores}\<close> and the list of its
  values: the semantic hits with one (document, score) pair per id.
\<close>

definition unique_docs_and_scores ::
  "'f ext \<Rightarrow> (document \<times> real) list \<Rightarrow> (document \<times> real) list" where
  "unique_docs_and_scores X docs_and_scores =
     (let id2doc_score = dict_comprehension (\<lambda>(d, s). doc_id X d) (\<lambda>(d, s). (d, s)) docs_and_scores
      in dict_values id2doc_score)"

text \<open>\<^verbatim>\<open>id2passage = {p.id(): p for p in passages}\<close> and the list of its values.\<close>

definition unique_passages :: "'f ext \<Rightarrow> document list \<Rightarrow> document list" where
  "unique_passages X passages =
     (let id2passage = dict_comprehension (doc_id X) (\<lambda>p. p) passages
      in dict_values id2passage)"

text \<open>
  The stages of \<^verbatim>\<open>get_relevant_chunks\<close> that follow the test for an empty passage
  list: context window, cross-encoder, diversity and periphery.
\<close>

definition rerank_stages ::
  "'f ext \<Rightarrow> 'f agent \<Rightarrow> pystr \<Rightarrow> document list \<Rightarrow> (error + document list) \<times> event list" where
  "rerank_stages X A query passages =
     (let passages_scores = map (\<lambda>p. (p, 0)) passages;
          passages_scores = add_context_window A passages_scores;
          passages = map fst passages_scores
      in case (if cross_encoder_reranking_model (cfg A) \<noteq> []
               then rerank_with_cross_encoder X A query passages
               else Inr passages) of
           Inl e \<Rightarrow> (Inl e, [])
         | Inr passages \<Rightarrow>
             (case (if rerank_diversity (cfg A)
                    then rerank_with_diversity X A passages
                    else (Inr passages, [])) of
                (Inl e, ev) \<Rightarrow> (Inl e, ev)
              | (Inr passages, ev) \<Rightarrow>
                  (Inr (if rerank_periphery (cfg A)
                        then rerank_to_periphery passages
                        else passages), ev)))"

text \<open>
  The part of \<^verbatim>\<open>get_relevant_chunks\<close> that follows the merge of the semantic hits,
  on the merged hits: the lexical and the fuzzy matches are appended, the passages are
  made unique by id, and a list that is not empty goes through the stages above.
\<close>

definition merge_and_rerank ::
  "'f ext \<Rightarrow> 'f agent \<Rightarrow> pystr \<Rightarrow> int \<Rightarrow> (document \<times> real) list
     \<Rightarrow> (error + document list) \<times> event list" where
  "merge_and_rerank X A query retrieval_multiple docs_and_scores =
     (let passages = map fst docs_and_scores;
          (docs_scores, ev1) =
             (if use_bm25_search (cfg A)
              then get_similar_chunks_bm25 X A query retrieval_multiple
              else ([], []));
          passages = passages @ map fst docs_scores;
          (fuzzy_match_docs, ev2) =
             (if use_fuzzy_match (cfg A)
              then get_fuzzy_matches X A query retrieval_multiple
              else ([], []));
          passages = passages @ fuzzy_match_docs;
          passages = unique_passages X passages
      in if length passages = 0 then (Inr [], ev1 @ ev2)
         else (case rerank_stages X A query passages of
                 (r, ev3) \<Rightarrow> (r, ev1 @ ev2 @ ev3)))"

definition get_relevant_chunks ::
  "'f ext \<Rightarrow> 'f agent \<Rightarrow> pystr \<Rightarrow> pystr list \<Rightarrow> (error + document list) \<times> event list" where
  "get_relevant_chunks X A query query_proxies =
     (let retrieval_multiple = (if cross_encoder_reranking_model (cfg A) = [] then 1 else 3)
      in if vecdb A = None then (Inl (ValueError ''VecDB not set''), [])
         else
           (case semantic_hits A (n_similar_docs (cfg A) * retrieval_multiple)
                   (query # query_proxies) [] of
              Inl e \<Rightarrow> (Inl e, [])
            | Inr docs_and_scores \<Rightarrow>
                merge_and_rerank X A query retrieval_multiple
                  (unique_docs_and_scores X docs_and_scores)))"

subsection \<open>Verbatim extraction\<close>

text \<open>
  Documents are Python objects: a heap is the list of the objects allocated so far and
  an address is a position in it. \<^verbatim>\<open>p.copy()\<close> allocates a new object with the fields
  of \<open>p\<close>; \<^verbatim>\<open>p_copy.content = e\<close> writes the \<open>content\<close> field of the object at
  \<open>p_copy\<close>. The loop over \<^verbatim>\<open>zip(passages, extracts)\<close> of \<^verbatim>\<open>get_verbatim_extracts\<close>
  returns the heap and the addresses appended to \<^verbatim>\<open>passage_extracts\<close>.
\<close>

type_synonym heap = "document list"

fun extract_loop :: "pystr \<Rightarrow> heap \<Rightarrow> (nat \<times> pystr) list \<Rightarrow> heap \<times> nat list" where
  "extract_loop no_answer h [] = (h, [])"
| "extract_loop no_answer h ((p, e) # rest) =
     (if e = no_answer \<or> length e = 0 then extract_loop no_answer h rest
      else (let p_copy = length h;
                h = h @ [h ! p];
                h = h[p_copy := (h ! p_copy)\<lparr>content := e\<rparr>];
                (h', passage_extracts) = extract_loop no_answer h rest
            in (h', p_copy # passage_extracts)))"

text \<open>
  The pairs of a passage and its extract that the loop keeps: the extract is neither
  \<^verbatim>\<open>NO_ANSWER\<close> nor empty.
\<close>

definition survivors :: "pystr \<Rightarrow> (nat \<times> pystr) list \<Rightarrow> (nat \<times> pystr) list" where
  "survivors no_answer pes = filter (\<lambda>(p, e). \<not> (e = no_answer \<or> length e = 0)) pes"

text \<open>
  The call of \<^verbatim>\<open>run_batch_tasks\<close> in \<^verbatim>\<open>get_verbatim_extracts\<close>: the input map
  hands over the content of each passage, the output map turns a missing answer into
  \<^verbatim>\<open>NO_ANSWER\<close>.
\<close>

definition batch_extracts :: "'f ext \<Rightarrow> pystr \<Rightarrow> int \<Rightarrow> pystr list \<Rightarrow> pystr list" where
  "batch_extracts X query segment_length contents =
     map (\<lambda>ans. case ans of None \<Rightarrow> NO_ANSWER X | Some c \<Rightarrow> c)
       (run_batch_tasks X query segment_length contents)"

text \<open>
  \<^verbatim>\<open>get_verbatim_extracts\<close> on a heap, the passages given by their addresses. It sets
  four fields of the relevance extractor's configuration (\<^verbatim>\<open>config.llm\<close> is never
  \<^verbatim>\<open>None\<close>), runs the batch of extractions on the contents and copies the passages with
  an answer.
\<close>

definition get_verbatim_extracts_heap ::
  "'f ext \<Rightarrow> 'f agent \<Rightarrow> pystr \<Rightarrow> heap \<Rightarrow> nat list
     \<Rightarrow> (nat list \<times> heap) \<times> 'f agent \<times> event list" where
  "get_verbatim_extracts_heap X A query h passages =
     (case relevance_extractor_config (cfg A) of
        None \<Rightarrow> ((passages, h), A, [])
      | Some agent_cfg \<Rightarrow>
          (let agent_cfg = agent_cfg\<lparr>rx_llm_set := True, rx_query := query,
                             rx_segment_length := extraction_granularity (cfg A),
                             rx_stream := False\<rparr>;
               A = A\<lparr>cfg := (cfg A)\<lparr>relevance_extractor_config := Some agent_cfg\<rparr>\<rparr>;
               extracts = batch_extracts X (rx_query agent_cfg) (rx_segment_length agent_cfg)
                            (map (\<lambda>p. content (h ! p)) passages);
               (h', passage_extracts) = extract_loop (NO_ANSWER X) h (zip passages extracts)
           in ((passage_extracts, h'), A, [LLM_extract_batch])))"

text \<open>
  The same call seen by a caller that holds the passages as values: they are the whole
  heap, and the result is read back from the heap the call leaves.
\<close>

definition get_verbatim_extracts ::
  "'f ext \<Rightarrow> 'f agent \<Rightarrow> pystr \<Rightarrow> document list \<Rightarrow> document list \<times> 'f agent \<times> event list" where
  "get_verbatim_extracts X A query passages =
     (case get_verbatim_extracts_heap X A query passages [0..<length passages] of
        ((out, h'), A', ev) \<Rightarrow> (map (\<lambda>a. h' ! a) out, A', ev))"

subsection \<open>Retrieval of extracts and the answer\<close>

text \<open>
  The first step of \<^verbatim>\<open>get_relevant_extracts\<close>: with a dialog and outside assistant
  mode the language model rewrites the query. The rewriting runs inside
  \<^verbatim>\<open>with StreamingIfAllowed(self.llm, False)\<close>, which switches the streaming of the
  model off on entry: on a missing model this is an \<^verbatim>\<open>AttributeError\<close>.
\<close>

definition to_standalone :: "'f agent \<Rightarrow> pystr \<Rightarrow> (error + pystr) \<times> event list" where
  "to_standalone A query =
     (if length (dialog A) > 0 \<and> \<not> assistant_mode (cfg A)
      then (case llm A of
              None \<Rightarrow> (Inl AttributeError, [])
            | Some l \<Rightarrow> (Inr (followup_to_standalone l (dialog A) query), [LLM_standalone]))
      else (Inr query, []))"

text \<open>The second step: the proxies, a hypothetical answer and rephrases of the query.\<close>

definition make_proxies ::
  "'f ext \<Rightarrow> 'f agent \<Rightarrow> pystr \<Rightarrow> (error + pystr list) \<times> event list" where
  "make_proxies X A query =
     (case (if hypothetical_answer (cfg A)
            then (case llm_hypothetical_answer X A query of
                    (Inl e, ev) \<Rightarrow> (Inl e, ev)
                  | (Inr answer, ev) \<Rightarrow> (Inr [answer], ev))
            else (Inr [], [])) of
        (Inl e, ev1) \<Rightarrow> (Inl e, ev1)
      | (Inr proxies, ev1) \<Rightarrow>
          (if n_query_rephrases (cfg A) > 0
           then (case llm_rephrase_query X A query of
                   (Inl e, ev2) \<Rightarrow> (Inl e, ev1 @ ev2)
                 | (Inr rephrases, ev2) \<Rightarrow> (Inr (proxies @ rephrases), ev1 @ ev2))
           else (Inr proxies, ev1)))"

text \<open>
  The last step, on a passage list that is not empty: the extraction and the filter on
  \<^verbatim>\<open>NO_ANSWER\<close> run inside \<^verbatim>\<open>with StreamingIfAllowed(self.llm, False)\<close>, so on a
  missing model there is an \<^verbatim>\<open>AttributeError\<close> before any extraction.
\<close>

definition extract_from_passages ::
  "'f ext \<Rightarrow> 'f agent \<Rightarrow> pystr \<Rightarrow> document list
     \<Rightarrow> (error + document list) \<times> 'f agent \<times> event list" where
  "extract_from_passages X A query passages =
     (case llm A of
        None \<Rightarrow> (Inl AttributeError, A, [])
      | Some _ \<Rightarrow>
          (case get_verbatim_extracts X A query passages of
             (extracts, A', ev) \<Rightarrow>
               (let extracts = filter (\<lambda>e. content e \<noteq> NO_ANSWER X) extracts
                in (Inr extracts, A', ev))))"

definition get_relevant_extracts ::
  "'f ext \<Rightarrow> 'f agent \<Rightarrow> pystr \<Rightarrow> (error + pystr \<times> document list) \<times> 'f agent \<times> event list" where
  "get_relevant_extracts X A query =
     (case to_standalone A query of
        (Inl e, ev0) \<Rightarrow> (Inl e, A, ev0)
      | (Inr query, ev0) \<Rightarrow>
          (case make_proxies X A query of
             (Inl e, ev1) \<Rightarrow> (Inl e, A, ev0 @ ev1)
           | (Inr proxies, ev1) \<Rightarrow>
               (case get_relevant_chunks X A query proxies of
                  (Inl e, ev2) \<Rightarrow> (Inl e, A, ev0 @ ev1 @ ev2)
                | (Inr passages, ev2) \<Rightarrow>
                    if length passages = 0
                    then (Inr (query, []), A, ev0 @ ev1 @ ev2)
                    else (case extract_from_passages X A query passages of
                            (Inl e, A', ev3) \<Rightarrow> (Inl e, A', ev0 @ ev1 @ ev2 @ ev3)
                          | (Inr extracts, A', ev3) \<Rightarrow>
                              (Inr (query, extracts), A', ev0 @ ev1 @ ev2 @ ev3)))))"

text \<open>
  \<^verbatim>\<open>answer_from_docs\<close>. \<^verbatim>\<open>update_dialog\<close> appends the pair of query and answer to the
  dialog. With \<^verbatim>\<open>retrieve_only\<close> the metadata of the answer is built from the metadata
  of the first extract.
\<close>

definition answer_from_docs ::
  "'f ext \<Rightarrow> 'f agent \<Rightarrow> pystr \<Rightarrow> (error + chat_document) \<times> 'f agent \<times> event list" where
  "answer_from_docs X A query =
     (let response = \<lparr>cd_content = NO_ANSWER X, cd_source = str ''None'',
                       cd_sender = LLM, cd_cached = False\<rparr>
      in case get_relevant_extracts X A query of
           (Inl e, A, ev) \<Rightarrow> (Inl e, A, ev)
         | (Inr (query, extracts), A, ev) \<Rightarrow>
             if length extracts = 0 then (Inr response, A, ev)
             else if llm A = None then (Inl (ValueError ''LLM not set''), A, ev)
             else if retrieve_only (cfg A)
             then (Inr \<lparr>cd_content = join (newline @ newline) (map content extracts),
                        cd_source = source (metadata (extracts ! 0)),
                        cd_sender = LLM, cd_cached = False\<rparr>, A, ev)
             else (case get_summary_answer X A query extracts of
                     (response, ev') \<Rightarrow>
                       (Inr response,
                        A\<lparr>dialog := dialog A @ [(query, cd_content response)],
                          response := Some response\<rparr>,
                        ev @ ev')))"

section \<open>Example objects\<close>

text \<open>
  A small store, collaborators, configuration and agent, on which the theorems below
  are instantiated. The store answers every query with three hits, two of them under
  the same id; its expansion appends a mark to every content; contents that start with
  \<open>a\<close> are embedded as one unit vector and all others as the orthogonal one.
\<close>

definition example_doc :: "string \<Rightarrow> string \<Rightarrow> document" where
  "example_doc i c =
     \<lparr>content = str c,
      metadata = \<lparr>source = str ''notes.txt'', is_chunk = True, meta_id = str i,
                  window_ids = []\<rparr>,
      extra_fields = []\<rparr>"

definition example_passages :: "document list" where
  "example_passages =
     [example_doc ''1'' ''alpha'', example_doc ''2'' ''again'', example_doc ''3'' ''beta'']"

definition example_vecdb :: "real vecdb" where
  "example_vecdb =
     \<lparr>similar_texts_with_scores =
        (\<lambda>query k where.
           [(example_doc ''1'' ''alpha'', 9), (example_doc ''2'' ''beta'', 8),
            (example_doc ''1'' ''again'', 7)]),
      vecdb_add_context_window =
        (\<lambda>docs_scores n. map (\<lambda>(d, s). (d\<lparr>content := content d @ str ''+''\<rparr>, s)) docs_scores),
      embedding_fn =
        map (\<lambda>c. if take 1 c = str ''a'' then [1, 0] else [0, 1])\<rparr>"

text \<open>
  The example cross-encoder gives a passage ten times the length of its content as its
  logit.
\<close>

definition example_cross_encoder :: "pystr \<Rightarrow> (pystr \<times> pystr) list \<Rightarrow> real list" where
  "example_cross_encoder name pairs = map (\<lambda>(q, c). real (10 * length c)) pairs"

text \<open>
  The example arithmetic computes on real numbers. Its exponential underflows: at
  \<open>-40\<close> and below it is 0, so that the logits from 40 on all get the score 1, as
  they do in float32 and float64.
\<close>

definition example_exp :: "real \<Rightarrow> real" where
  "example_exp x = (if x \<le> - 40 then 0 else exp x)"

definition dot :: "real list \<Rightarrow> real list \<Rightarrow> real" where
  "dot a b = sum_list (map (\<lambda>(x, y). x * y) (zip a b))"

definition norm2 :: "real list \<Rightarrow> real" where
  "norm2 a = sqrt (sum_list (map (\<lambda>x. x * x) a))"

definition example_ext :: "real ext" where
  "example_ext =
     \<lparr>NO_ANSWER = str ''DO-NOT-KNOW'',
      doc_id = (\<lambda>d. meta_id (metadata d)),
      find_closest_matches_with_bm25 = (\<lambda>docs docs_clean query k. map (\<lambda>d. (d, 1)) docs),
      find_fuzzy_matches_in_docs = (\<lambda>query docs docs_clean k before after. docs),
      cross_encoder = Some example_cross_encoder,
      run_batch_tasks =
        (\<lambda>query segment_length contents.
           map (\<lambda>c. if take 1 c = str ''a'' then Some (take 3 c) else None) contents),
      llm_response_forget =
        (\<lambda>prompt. (str ''The answer is X.'' @ [0x0A] @ str ''SOURCE: doc1.pdf'', False)),
      llm_response_temp_context =
        (\<lambda>question prompt.
           (str ''The answer is X.'' @ [0x0A] @ str ''SOURCE: doc1.pdf'', False)),
      format_summarize_prompt = (\<lambda>question extracts. question @ extracts),
      fl_lt = (<), fl_add = (+), fl_mul = (*), fl_div = (/), fl_neg = uminus,
      fl_exp = example_exp, fl_of_int = real_of_int,
      np_dot = dot, np_norm = norm2\<rparr>"

text \<open>The same collaborators with an extractor that finds nothing in any passage.\<close>

definition silent_ext :: "real ext" where
  "silent_ext =
     example_ext\<lparr>run_batch_tasks := (\<lambda>query segment_length contents. map (\<lambda>c. None) contents)\<rparr>"

definition example_config :: config where
  "example_config =
     \<lparr>retrieve_only = False, extraction_granularity = 1, filter_cond = None,
      conversation_mode = True, assistant_mode = False, hypothetical_answer = False,
      n_query_rephrases = 0, n_neighbor_chunks = 0, n_fuzzy_neighbor_words = 100,
      use_fuzzy_match = True, use_bm25_search = True,
      cross_encoder_reranking_model = str ''cross-encoder/ms-marco-MiniLM-L-6-v2'',
      rerank_diversity = True, rerank_periphery = True,
      relevance_extractor_config =
        Some \<lparr>rx_llm_set = False, rx_query = [], rx_segment_length = 1, rx_stream = True\<rparr>,
      n_similar_docs = 3\<rparr>"

definition example_agent :: "real agent" where
  "example_agent =
     \<lparr>cfg = example_config, vecdb = Some example_vecdb,
      llm = Some \<lparr>followup_to_standalone = (\<lambda>dialog query. query)\<rparr>,
      chunked_docs = Some [], chunked_docs_clean = Some [],
      dialog = [], response = None\<rparr>"

text \<open>
  A store whose expansion files every window under the id of its source file, and an
  agent on that store that expands by one neighbour and uses no other matcher or
  reranker.
\<close>

definition window_vecdb :: "real vecdb" where
  "window_vecdb =
     example_vecdb\<lparr>vecdb_add_context_window :=
       (\<lambda>docs_scores n.
          map (\<lambda>(d, s). (d\<lparr>metadata := (metadata d)\<lparr>meta_id := source (metadata d)\<rparr>\<rparr>, s))
            docs_scores)\<rparr>"

definition window_agent :: "real agent" where
  "window_agent =
     example_agent\<lparr>cfg := example_config\<lparr>n_neighbor_chunks := 1, use_fuzzy_match := False,
                                        use_bm25_search := False,
                                        cross_encoder_reranking_model := [],
                                        rerank_diversity := False, rerank_periphery := False\<rparr>,
                   vecdb := Some window_vecdb\<rparr>"

section \<open>Periphery reranking\<close>

lemma slice_step2_Cons: "slice_step2 (y # xs) = y # slice_step2 (tl xs)"
  by (cases xs) simp_all

lemma slice_from1_step2_tl: "slice_from1_step2 xs = slice_step2 (tl xs)"
  by (cases xs) (simp_all add: slice_from1_step2_def)

lemma mset_slice_step2: "mset (slice_step2 xs) + mset (slice_step2 (tl xs)) = mset xs"
  by (induction xs rule: slice_step2.induct) (simp_all add: slice_step2_Cons)

lemma length_slice_step2: "length (slice_step2 xs) = (length xs + 1) div 2"
  by (induction xs rule: slice_step2.induct) simp_all

lemma nth_slice_step2: "i < (length xs + 1) div 2 \<Longrightarrow> slice_step2 xs ! i = xs ! (2 * i)"
proof (induction xs arbitrary: i rule: slice_step2.induct)
  case (3 x y xs)
  then show ?case by (cases i) simp_all
qed simp_all

lemma slice_step2_map: "slice_step2 xs = map (\<lambda>i. xs ! (2 * i)) [0..<(length xs + 1) div 2]"
  by (rule nth_equalityI) (simp_all add: length_slice_step2 nth_slice_step2)

lemma slice_from1_step2_map:
  "slice_from1_step2 xs = map (\<lambda>i. xs ! (2 * i + 1)) [0..<length xs div 2]"
proof (cases xs)
  case Nil
  then show ?thesis by (simp add: slice_from1_step2_def)
next
  case (Cons x ys)
  then show ?thesis
    by (simp add: slice_from1_step2_def slice_step2_map)
qed

lemma mset_rerank_to_periphery: "mset (rerank_to_periphery ps) = mset ps"
  using mset_slice_step2 [of ps]
  by (simp add: rerank_to_periphery_def slice_from1_step2_tl)

text \<open>
  C3. For every input list, \<^verbatim>\<open>rerank_to_periphery\<close> returns a permutation of the input:
  first the elements at the even positions 0, 2, 4, ... in their order, then the
  elements at the odd positions 1, 3, 5, ... in reverse order. It maps
  \<open>[A,B,C,D,E,F,G,H,I]\<close> to \<open>[A,C,E,G,I,H,F,D,B]\<close> and \<open>[1,...,9]\<close> to
  \<open>[1,3,5,7,9,8,6,4,2]\<close>.
\<close>

theorem rerank_to_periphery_permutation:
  "mset (rerank_to_periphery ps) = mset ps
   \<and> rerank_to_periphery ps
       = map (\<lambda>i. ps ! (2 * i)) [0..<(length ps + 1) div 2]
         @ rev (map (\<lambda>i. ps ! (2 * i + 1)) [0..<length ps div 2])
   \<and> rerank_to_periphery ''ABCDEFGHI'' = ''ACEGIHFDB''
   \<and> rerank_to_periphery [1, 2, 3, 4, 5, 6, 7, 8, 9 :: nat] = [1, 3, 5, 7, 9, 8, 6, 4, 2]"
proof (intro conjI)
  show "mset (rerank_to_periphery ps) = mset ps"
    by (rule mset_rerank_to_periphery)
  show "rerank_to_periphery ps
       = map (\<lambda>i. ps ! (2 * i)) [0..<(length ps + 1) div 2]
         @ rev (map (\<lambda>i. ps ! (2 * i + 1)) [0..<length ps div 2])"
    unfolding rerank_to_periphery_def Let_def
    using slice_step2_map [of ps] slice_from1_step2_map [of ps] by simp
  show "rerank_to_periphery ''ABCDEFGHI'' = ''ACEGIHFDB''"
    by (simp add: rerank_to_periphery_def slice_from1_step2_def)
  show "rerank_to_periphery [1, 2, 3, 4, 5, 6, 7, 8, 9 :: nat] = [1, 3, 5, 7, 9, 8, 6, 4, 2]"
    by (simp add: rerank_to_periphery_def slice_from1_step2_def)
qed

section \<open>Operations without a vector store\<close>

text \<open>
  Counterexample to C10 as stated: without a vector store, \<^verbatim>\<open>rerank_with_diversity\<close>
  and \<^verbatim>\<open>add_context_window\<close> return their input instead of raising.
\<close>

theorem no_vecdb_counterexample:
  "vecdb (example_agent\<lparr>vecdb := None\<rparr>) = None
   \<and> rerank_with_diversity example_ext (example_agent\<lparr>vecdb := None\<rparr>) [example_doc ''1'' ''alpha'']
       = (Inr [example_doc ''1'' ''alpha''], [Warning ''No vecdb; cannot use rerank_with_diversity''])
   \<and> add_context_window (example_agent\<lparr>vecdb := None\<rparr>) [(example_doc ''1'' ''alpha'', 0)]
       = [(example_doc ''1'' ''alpha'', 0)]"
  by (simp add: rerank_with_diversity_def add_context_window_def)

text \<open>
  C10, amended. When no vector store is configured, \<^verbatim>\<open>get_relevant_chunks\<close> and
  \<^verbatim>\<open>get_semantic_search_results\<close> raise \<^verbatim>\<open>ValueError("VecDB not set")\<close> at once;
  \<^verbatim>\<open>rerank_with_diversity\<close> logs a warning and returns its input unchanged;
  \<^verbatim>\<open>add_context_window\<close> returns its input unchanged.
\<close>

theorem no_vecdb_behaviour:
  assumes "vecdb A = None"
  shows "get_relevant_chunks X A query query_proxies = (Inl (ValueError ''VecDB not set''), [])
    \<and> get_semantic_search_results A query k = Inl (ValueError ''VecDB not set'')
    \<and> rerank_with_diversity X A passages
         = (Inr passages, [Warning ''No vecdb; cannot use rerank_with_diversity''])
    \<and> add_context_window A docs_scores = docs_scores"
  using assms
  by (simp add: get_relevant_chunks_def get_semantic_search_results_def
        rerank_with_diversity_def add_context_window_def)

theorem no_vecdb_behaviour_witness:
  "vecdb (example_agent\<lparr>vecdb := None\<rparr>) = None
   \<and> get_relevant_chunks example_ext (example_agent\<lparr>vecdb := None\<rparr>) (str ''q'') []
       = (Inl (ValueError ''VecDB not set''), [])
   \<and> rerank_with_diversity example_ext (example_agent\<lparr>vecdb := None\<rparr>) [example_doc ''1'' ''alpha'']
       = (Inr [example_doc ''1'' ''alpha''], [Warning ''No vecdb; cannot use rerank_with_diversity''])"
  using no_vecdb_behaviour [of "example_agent\<lparr>vecdb := None\<rparr>"] by simp

section \<open>Context-window expansion\<close>

lemma fields_of_example_doc: "fields_of (example_doc i c) = {''content'', ''metadata''}"
  by (simp add: fields_of_def example_doc_def)

lemma fields_of_extra:
  "fields_of (d\<lparr>extra_fields := [(''price'', v)]\<rparr>) \<noteq> {''content'', ''metadata''}"
proof -
  have "''price'' \<in> fields_of (d\<lparr>extra_fields := [(''price'', v)]\<rparr>)"
    by (simp add: fields_of_def)
  moreover have "''price'' \<notin> {''content'', ''metadata''}"
    by simp
  ultimately show ?thesis by metis
qed

text \<open>
  Counterexample to C2 as stated: with \<open>n_neighbor_chunks = 1\<close>, a batch whose second
  document has the extra field \<open>price\<close> is expanded all the same, because only the
  first document of the batch is inspected.
\<close>

theorem add_context_window_first_only_counterexample:
  "n_neighbor_chunks (cfg (example_agent\<lparr>cfg := example_config\<lparr>n_neighbor_chunks := 1\<rparr>\<rparr>)) = 1
   \<and> fields_of (example_doc ''2'' ''beta''\<lparr>extra_fields := [(''price'', str ''3'')]\<rparr>)
     \<noteq> {''content'', ''metadata''}
   \<and> add_context_window (example_agent\<lparr>cfg := example_config\<lparr>n_neighbor_chunks := 1\<rparr>\<rparr>)
         [(example_doc ''1'' ''alpha'', 0),
          (example_doc ''2'' ''beta''\<lparr>extra_fields := [(''price'', str ''3'')]\<rparr>, 0)]
       = [(example_doc ''1'' ''alpha+'', 0),
          (example_doc ''2'' ''beta+''\<lparr>extra_fields := [(''price'', str ''3'')]\<rparr>, 0)]"
proof (intro conjI)
  show "n_neighbor_chunks (cfg (example_agent\<lparr>cfg := example_config\<lparr>n_neighbor_chunks := 1\<rparr>\<rparr>)) = 1"
    by simp
  show "fields_of (example_doc ''2'' ''beta''\<lparr>extra_fields := [(''price'', str ''3'')]\<rparr>)
     \<noteq> {''content'', ''metadata''}"
    by (rule fields_of_extra)
  have "add_context_window (example_agent\<lparr>cfg := example_config\<lparr>n_neighbor_chunks := 1\<rparr>\<rparr>)
         [(example_doc ''1'' ''alpha'', 0),
          (example_doc ''2'' ''beta''\<lparr>extra_fields := [(''price'', str ''3'')]\<rparr>, 0)]
       = vecdb_add_context_window example_vecdb [(example_doc ''1'' ''alpha'', 0),
          (example_doc ''2'' ''beta''\<lparr>extra_fields := [(''price'', str ''3'')]\<rparr>, 0)] 1"
    by (simp add: add_context_window_def fields_of_example_doc
        example_agent_def example_config_def)
  also have "\<dots> = [(example_doc ''1'' ''alpha+'', 0),
          (example_doc ''2'' ''beta+''\<lparr>extra_fields := [(''price'', str ''3'')]\<rparr>, 0)]"
    by (simp add: example_vecdb_def example_doc_def str_def)
  finally show "add_context_window (example_agent\<lparr>cfg := example_config\<lparr>n_neighbor_chunks := 1\<rparr>\<rparr>)
         [(example_doc ''1'' ''alpha'', 0),
          (example_doc ''2'' ''beta''\<lparr>extra_fields := [(''price'', str ''3'')]\<rparr>, 0)]
       = [(example_doc ''1'' ''alpha+'', 0),
          (example_doc ''2'' ''beta+''\<lparr>extra_fields := [(''price'', str ''3'')]\<rparr>, 0)]" .
qed

text \<open>
  C2, amended. \<^verbatim>\<open>add_context_window\<close> is the identity on its input whenever
  \<open>n_neighbor_chunks = 0\<close> and whenever the input is empty, and the expansion is skipped
  (input returned unchanged) whenever the first document of the batch carries fields
  other than the two canonical fields \<open>content\<close> and \<open>metadata\<close>. With a vector store,
  \<open>n_neighbor_chunks \<noteq> 0\<close> and a batch whose first document has exactly those two fields,
  the result is the store's expansion of the whole batch.
\<close>

theorem add_context_window_cases:
  "(n_neighbor_chunks (cfg A) = 0 \<longrightarrow> add_context_window A docs_scores = docs_scores)
   \<and> (docs_scores = [] \<longrightarrow> add_context_window A docs_scores = docs_scores)
   \<and> (docs_scores \<noteq> [] \<and> fields_of (fst (hd docs_scores)) \<noteq> {''content'', ''metadata''}
        \<longrightarrow> add_context_window A docs_scores = docs_scores)
   \<and> (vecdb A = Some vdb \<and> n_neighbor_chunks (cfg A) \<noteq> 0 \<and> docs_scores \<noteq> []
        \<and> fields_of (fst (hd docs_scores)) = {''content'', ''metadata''}
        \<longrightarrow> add_context_window A docs_scores
            = vecdb_add_context_window vdb docs_scores (n_neighbor_chunks (cfg A)))"
  by (cases docs_scores) (simp_all add: add_context_window_def split: option.splits)

theorem add_context_window_cases_witness:
  "add_context_window example_agent [(example_doc ''1'' ''alpha'', 0)]
       = [(example_doc ''1'' ''alpha'', 0)]
   \<and> add_context_window (example_agent\<lparr>cfg := example_config\<lparr>n_neighbor_chunks := 1\<rparr>\<rparr>)
         [(example_doc ''2'' ''beta''\<lparr>extra_fields := [(''price'', str ''3'')]\<rparr>, 0),
          (example_doc ''1'' ''alpha'', 0)]
       = [(example_doc ''2'' ''beta''\<lparr>extra_fields := [(''price'', str ''3'')]\<rparr>, 0),
          (example_doc ''1'' ''alpha'', 0)]
   \<and> add_context_window (example_agent\<lparr>cfg := example_config\<lparr>n_neighbor_chunks := 1\<rparr>\<rparr>)
         [(example_doc ''1'' ''alpha'', 0)]
       = vecdb_add_context_window example_vecdb [(example_doc ''1'' ''alpha'', 0)] 1"
proof (intro conjI)
  have "n_neighbor_chunks (cfg example_agent) = 0"
    by (simp add: example_agent_def example_config_def)
  then show "add_context_window example_agent [(example_doc ''1'' ''alpha'', 0)]
       = [(example_doc ''1'' ''alpha'', 0)]"
    using add_context_window_cases [of example_agent "[(example_doc ''1'' ''alpha'', 0)]"]
    by blast
next
  let ?ds = "[(example_doc ''2'' ''beta''\<lparr>extra_fields := [(''price'', str ''3'')]\<rparr>, 0 :: real),
          (example_doc ''1'' ''alpha'', 0)]"
  have "?ds \<noteq> [] \<and> fields_of (fst (hd ?ds)) \<noteq> {''content'', ''metadata''}"
    using fields_of_extra [where d="example_doc ''2'' ''beta''" and v="str ''3''"] by simp
  then show "add_context_window (example_agent\<lparr>cfg := example_config\<lparr>n_neighbor_chunks := 1\<rparr>\<rparr>) ?ds
       = ?ds"
    using add_context_window_cases
      [of "example_agent\<lparr>cfg := example_config\<lparr>n_neighbor_chunks := 1\<rparr>\<rparr>" ?ds]
    by blast
next
  let ?A = "example_agent\<lparr>cfg := example_config\<lparr>n_neighbor_chunks := 1\<rparr>\<rparr>"
  let ?ds = "[(example_doc ''1'' ''alpha'', 0 :: real)]"
  have "vecdb ?A = Some example_vecdb \<and> n_neighbor_chunks (cfg ?A) \<noteq> 0 \<and> ?ds \<noteq> []
        \<and> fields_of (fst (hd ?ds)) = {''content'', ''metadata''}"
    by (simp add: fields_of_example_doc example_agent_def)
  then have "add_context_window ?A ?ds
       = vecdb_add_context_window example_vecdb ?ds (n_neighbor_chunks (cfg ?A))"
    using add_context_window_cases [of ?A ?ds example_vecdb] by blast
  then show "add_context_window ?A ?ds = vecdb_add_context_window example_vecdb ?ds 1"
    by simp
qed

section \<open>Matchers on an empty corpus\<close>

text \<open>
  C6. On an empty corpus the lexical matcher returns the empty list with a logged
  warning, and so does the fuzzy matcher when the corpus is \<^verbatim>\<open>None\<close>. When the corpus
  is the empty list (its value in a new agent), the fuzzy matcher logs nothing and
  returns what \<^verbatim>\<open>find_fuzzy_matches_in_docs\<close> returns on the empty corpus.
\<close>

theorem empty_corpus_matchers:
  "(chunked_docs A = None \<or> chunked_docs A = Some []
      \<longrightarrow> get_similar_chunks_bm25 X A query multiple
           = ([], [Warning ''No chunked docs; cannot use bm25-similarity'']))
   \<and> (chunked_docs A = None
      \<longrightarrow> get_fuzzy_matches X A query multiple
           = ([], [Warning ''No chunked docs; cannot use fuzzy matching'']))
   \<and> (chunked_docs A = Some [] \<and> chunked_docs_clean A = Some []
      \<longrightarrow> get_fuzzy_matches X A query multiple
           = (find_fuzzy_matches_in_docs X query [] []
                (n_similar_docs (cfg A) * multiple)
                (n_fuzzy_neighbor_words (cfg A)) (n_fuzzy_neighbor_words (cfg A)), []))"
  by (auto simp add: get_similar_chunks_bm25_def get_fuzzy_matches_def)

theorem empty_corpus_matchers_witness:
  "get_similar_chunks_bm25 example_ext example_agent (str ''q'') 3
       = ([], [Warning ''No chunked docs; cannot use bm25-similarity''])
   \<and> get_fuzzy_matches example_ext (example_agent\<lparr>chunked_docs := None\<rparr>) (str ''q'') 3
       = ([], [Warning ''No chunked docs; cannot use fuzzy matching''])
   \<and> get_fuzzy_matches example_ext example_agent (str ''q'') 3 = ([], [])"
proof (intro conjI)
  have e: "chunked_docs example_agent = Some []" "chunked_docs_clean example_agent = Some []"
    by (simp_all add: example_agent_def)
  show "get_similar_chunks_bm25 example_ext example_agent (str ''q'') 3
       = ([], [Warning ''No chunked docs; cannot use bm25-similarity''])"
    using e empty_corpus_matchers [of example_agent example_ext "str ''q''" 3] by blast
  have "chunked_docs (example_agent\<lparr>chunked_docs := None\<rparr>) = None"
    by simp
  then show "get_fuzzy_matches example_ext (example_agent\<lparr>chunked_docs := None\<rparr>) (str ''q'') 3
       = ([], [Warning ''No chunked docs; cannot use fuzzy matching''])"
    using empty_corpus_matchers [of "example_agent\<lparr>chunked_docs := None\<rparr>" example_ext "str ''q''" 3]
    by blast
  have "get_fuzzy_matches example_ext example_agent (str ''q'') 3
     = (find_fuzzy_matches_in_docs example_ext (str ''q'') [] []
                (n_similar_docs (cfg example_agent) * 3)
                (n_fuzzy_neighbor_words (cfg example_agent))
                (n_fuzzy_neighbor_words (cfg example_agent)), [])"
    using e empty_corpus_matchers [of example_agent example_ext "str ''q''" 3] by blast
  then show "get_fuzzy_matches example_ext example_agent (str ''q'') 3 = ([], [])"
    by (simp add: example_ext_def)
qed

section \<open>Cross-encoder reranking\<close>


lemma ordered_on_negtrans:
  assumes "ordered_on lt S" and "a \<in> S" and "b \<in> S" and "c \<in> S"
    and "\<not> lt a b" and "\<not> lt b c"
  shows "\<not> lt a c"
  using assms unfolding ordered_on_def by blast

lemma ordered_on_trans:
  assumes "ordered_on lt S" and "a \<in> S" and "b \<in> S" and "c \<in> S"
    and "lt a b" and "lt b c"
  shows "lt a c"
  using assms unfolding ordered_on_def by blast


lemma ordered_on_less: "ordered_on (<) (S :: real set)"
  unfolding ordered_on_def by auto

lemma insert_desc_mset: "mset (insert_desc lt key x ys) = add_mset x (mset ys)"
  by (induction ys) simp_all


lemma sorted_reverse_snoc:
  "sorted_reverse lt key (xs @ [x]) = insert_desc lt key x (sorted_reverse lt key xs)"
  by (simp add: sorted_reverse_def)

lemma sorted_reverse_mset: "mset (sorted_reverse lt key xs) = mset xs"
proof (induction xs rule: rev_induct)
  case Nil
  then show ?case by (simp add: sorted_reverse_def)
next
  case (snoc x xs)
  then show ?case by (simp add: sorted_reverse_snoc insert_desc_mset)
qed









lemma example_logistic_large: "40 \<le> x \<Longrightarrow> logistic example_ext x = 1"
  by (simp add: logistic_def example_ext_def example_exp_def)


lemma example_lt: "fl_lt example_ext = (<)"
  by (simp add: example_ext_def)




section \<open>Diversity reranking\<close>

text \<open>
  The element that \<^verbatim>\<open>min\<close> returns has a key that no key of the list is below, when
  the comparison orders the keys of the list up to ties.
\<close>

lemma min_key_least:
  assumes "ordered_on lt S" and "key ` set (best # ys) \<subseteq> S"
  shows "\<forall>y \<in> set (best # ys). \<not> lt (key y) (key (min_key lt key best ys))"
  using assms(2)
proof (induction ys arbitrary: best)
  case Nil
  then show ?case
    using assms(1) unfolding ordered_on_def by simp
next
  case (Cons y ys)
  let ?b = "if lt (key y) (key best) then y else best"
  let ?m = "min_key lt key ?b ys"
  have bS: "key best \<in> S" and yS: "key y \<in> S" and ysS: "key ` set ys \<subseteq> S"
    using Cons.prems by simp_all
  have sub: "key ` set (?b # ys) \<subseteq> S"
    using bS yS ysS by simp
  have ih: "\<forall>z \<in> set (?b # ys). \<not> lt (key z) (key ?m)"
    using Cons.IH [OF sub] .
  have "?m \<in> set (?b # ys)"
    by (rule min_key_in)
  then have mS: "key ?m \<in> S"
    using sub by blast
  have b: "\<not> lt (key ?b) (key ?m)"
    using ih by simp
  have "\<not> lt (key best) (key ?m) \<and> \<not> lt (key y) (key ?m)"
  proof (cases "lt (key y) (key best)")
    case True
    then have y: "\<not> lt (key y) (key ?m)"
      using b by simp
    have "\<not> lt (key best) (key ?m)"
    proof
      assume "lt (key best) (key ?m)"
      then have "lt (key y) (key ?m)"
        using ordered_on_trans [OF assms(1) yS bS mS True] by blast
      then show False
        using y by simp
    qed
    then show ?thesis
      using y by simp
  next
    case False
    then have "\<not> lt (key best) (key ?m)"
      using b by simp
    then show ?thesis
      using ordered_on_negtrans [OF assms(1) yS bS mS False] by blast
  qed
  then show ?case
    using ih by simp
qed

lemma diversity_loop_step:
  "diversity_loop lt avg (i # indices) result
     = diversity_loop lt avg (remove1 (min_key lt (\<lambda>k. avg k result) i indices) (i # indices))
         (result @ [min_key lt (\<lambda>k. avg k result) i indices])"
  by (simp only: diversity_loop.simps Let_def)

lemma mset_remove1_member: "x \<in> set xs \<Longrightarrow> add_mset x (mset (remove1 x xs)) = mset xs"
  by (induction xs) auto

lemma diversity_loop_mset:
  "mset (diversity_loop lt avg indices result) = mset result + mset indices"
proof (induction lt avg indices result rule: diversity_loop.induct)
  case (1 lt avg result)
  then show ?case by simp
next
  case (2 lt avg i indices result)
  let ?x = "min_key lt (\<lambda>k. avg k result) i indices"
  have "?x \<in> set (i # indices)"
    by (rule min_key_in)
  then have m: "add_mset ?x (mset (remove1 ?x (i # indices))) = mset (i # indices)"
    by (rule mset_remove1_member)
  have "mset (diversity_loop lt avg (i # indices) result)
      = mset (result @ [?x]) + mset (remove1 ?x (i # indices))"
    using "2.IH" [OF refl] by (simp only: diversity_loop_step)
  also have "\<dots> = mset result + add_mset ?x (mset (remove1 ?x (i # indices)))"
    by (simp only: mset_append mset.simps) simp
  finally show ?case
    by (simp only: m)
qed

lemma diversity_loop_prefix:
  "\<exists>rest. diversity_loop lt avg indices result = result @ rest"
proof (induction lt avg indices result rule: diversity_loop.induct)
  case (1 lt avg result)
  then show ?case by simp
next
  case (2 lt avg i indices result)
  let ?x = "min_key lt (\<lambda>k. avg k result) i indices"
  from "2.IH" [OF refl] obtain rest where
    "diversity_loop lt avg (remove1 ?x (i # indices)) (result @ [?x]) = (result @ [?x]) @ rest"
    by blast
  then have "diversity_loop lt avg (i # indices) result = result @ (?x # rest)"
    by (simp only: diversity_loop_step) simp
  then show ?case by blast
qed

text \<open>
  In every round in which the comparison orders the average similarities of the
  remaining items up to ties, the item selected has an average similarity that none of
  the remaining items is below.
\<close>

lemma diversity_loop_greedy:
  assumes "length result \<le> k" and "k < length (diversity_loop lt avg indices result)"
    and "ordered_on lt ((\<lambda>i. avg i (take k (diversity_loop lt avg indices result)))
                          ` set (drop k (diversity_loop lt avg indices result)))"
  shows "\<forall>i \<in> set (drop k (diversity_loop lt avg indices result)).
           \<not> lt (avg i (take k (diversity_loop lt avg indices result)))
                (avg (diversity_loop lt avg indices result ! k)
                   (take k (diversity_loop lt avg indices result)))"
  using assms
proof (induction lt avg indices result rule: diversity_loop.induct)
  case (1 lt avg result)
  then show ?case by simp
next
  case (2 lt avg i indices result)
  let ?x = "min_key lt (\<lambda>k. avg k result) i indices"
  let ?out = "diversity_loop lt avg (i # indices) result"
  have out: "?out = diversity_loop lt avg (remove1 ?x (i # indices)) (result @ [?x])"
    by (rule diversity_loop_step)
  show ?case
  proof (cases "k = length result")
    case True
    obtain rest where rest: "?out = (result @ [?x]) @ rest"
      using diversity_loop_prefix [of lt avg "remove1 ?x (i # indices)" "result @ [?x]"] out
      by metis
    have tk: "take k ?out = result" and nk: "?out ! k = ?x"
      unfolding rest using True by simp_all
    have "mset ?out = mset result + mset (i # indices)"
      by (rule diversity_loop_mset)
    moreover have "mset ?out = mset (take k ?out) + mset (drop k ?out)"
      by (metis append_take_drop_id mset_append)
    ultimately have "mset (drop k ?out) = mset (i # indices)"
      unfolding tk by simp
    then have s: "set (drop k ?out) = set (i # indices)"
      by (rule mset_eq_setD)
    have ord: "ordered_on lt ((\<lambda>i. avg i result) ` set (i # indices))"
      using "2.prems"(3) by (simp only: tk s)
    have "\<forall>y \<in> set (i # indices). \<not> lt (avg y result) (avg ?x result)"
      using min_key_least [OF ord subset_refl] .
    then show ?thesis
      by (simp only: tk nk s)
  next
    case False
    then have "length (result @ [?x]) \<le> k"
      using "2.prems"(1) by simp
    moreover have "k < length (diversity_loop lt avg (remove1 ?x (i # indices)) (result @ [?x]))"
      using "2.prems"(2) unfolding out .
    moreover have "ordered_on lt
        ((\<lambda>i'. avg i' (take k (diversity_loop lt avg (remove1 ?x (i # indices)) (result @ [?x]))))
           ` set (drop k (diversity_loop lt avg (remove1 ?x (i # indices)) (result @ [?x]))))"
      using "2.prems"(3) unfolding out .
    ultimately show ?thesis
      using "2.IH" [OF refl] unfolding out by blast
  qed
qed

lemma example_avg_1:
  "avg_similarity_to_result example_ext [[1, 0], [1, 0], [0, 1]] 1 [0] = 1"
  by (simp add: avg_similarity_to_result_def example_ext_def dot_def norm2_def)

lemma example_avg_2:
  "avg_similarity_to_result example_ext [[1, 0], [1, 0], [0, 1]] 2 [0] = 0"
  by (simp add: avg_similarity_to_result_def example_ext_def dot_def norm2_def)

lemma example_embeddings:
  "embedding_fn example_vecdb (map content example_passages) = [[1, 0], [1, 0], [0, 1]]"
  by (simp add: example_vecdb_def example_doc_def example_passages_def str_def)

lemma example_diversity_order:
  "diversity_loop (fl_lt example_ext)
     (avg_similarity_to_result example_ext [[1, 0], [1, 0], [0, 1]]) [1..<3] [0] = [0, 2, 1]"
proof -
  have u: "[1..<3] = [1, 2]"
    by (simp add: upt_rec)
  show ?thesis
    unfolding u example_lt
    using example_avg_1 example_avg_2 by simp
qed

lemma diversity_example_run:
  "rerank_with_diversity example_ext example_agent example_passages
   = (Inr [example_doc ''1'' ''alpha'', example_doc ''3'' ''beta'', example_doc ''2'' ''again''], [])"
proof -
  have v: "vecdb example_agent = Some example_vecdb"
    by (simp add: example_agent_def)
  have l: "length example_passages = 3"
    by (simp add: example_passages_def)
  show ?thesis
    unfolding rerank_with_diversity_def v option.case Let_def example_embeddings l
      example_diversity_order
    by (simp add: example_passages_def)
qed

text \<open>
  Counterexample to C4 as stated. On the empty list, with a vector store configured,
  \<^verbatim>\<open>rerank_with_diversity\<close> returns no permutation: \<^verbatim>\<open>indices.pop(0)\<close> raises
  \<^verbatim>\<open>IndexError\<close>. And without a vector store it returns the three example passages
  in their original order, which is not the order of lowest average similarity that the
  same passages get with the example embeddings.
\<close>

theorem rerank_with_diversity_empty_counterexample:
  "rerank_with_diversity example_ext example_agent [] = (Inl IndexError, [])
   \<and> rerank_with_diversity example_ext (example_agent\<lparr>vecdb := None\<rparr>) example_passages
       = (Inr [example_doc ''1'' ''alpha'', example_doc ''2'' ''again'', example_doc ''3'' ''beta''],
          [Warning ''No vecdb; cannot use rerank_with_diversity''])
   \<and> rerank_with_diversity example_ext example_agent example_passages
       = (Inr [example_doc ''1'' ''alpha'', example_doc ''3'' ''beta'', example_doc ''2'' ''again''],
          [])"
proof (intro conjI)
  show "rerank_with_diversity example_ext example_agent [] = (Inl IndexError, [])"
    by (simp add: rerank_with_diversity_def example_agent_def)
  show "rerank_with_diversity example_ext (example_agent\<lparr>vecdb := None\<rparr>) example_passages
       = (Inr [example_doc ''1'' ''alpha'', example_doc ''2'' ''again'', example_doc ''3'' ''beta''],
          [Warning ''No vecdb; cannot use rerank_with_diversity''])"
    by (simp add: rerank_with_diversity_def example_passages_def)
  show "rerank_with_diversity example_ext example_agent example_passages
       = (Inr [example_doc ''1'' ''alpha'', example_doc ''3'' ''beta'', example_doc ''2'' ''again''],
          [])"
    by (rule diversity_example_run)
qed

text \<open>
  C4, amended. For every list of passages that is not empty, with a vector store whose
  embedding function returns for each passage a vector, all of one dimension,
  \<^verbatim>\<open>rerank_with_diversity\<close> returns a permutation of its input (same multiset) whose
  first element is the original first element. The order is given by positions in the
  input. Average cosine similarities are computed and compared in floating-point
  arithmetic: at every later position whose candidates (the passages not yet selected)
  have average similarities to the passages already selected that \<^verbatim>\<open><\<close> orders up to
  ties, as it does when none of them is NaN, no candidate has an average similarity below
  that of the passage selected.
\<close>

theorem rerank_with_diversity_greedy:
  assumes "vecdb A = Some vdb" and "passages \<noteq> []"
    and "length passages \<le> length (embedding_fn vdb (map content passages))"
    and "\<forall>e \<in> set (take (length passages) (embedding_fn vdb (map content passages))).
           length e = length (hd (embedding_fn vdb (map content passages)))"
  shows "\<exists>order.
      rerank_with_diversity X A passages = (Inr (map (\<lambda>i. passages ! i) order), [])
      \<and> mset order = mset [0..<length passages]
      \<and> mset (map (\<lambda>i. passages ! i) order) = mset passages
      \<and> order ! 0 = 0
      \<and> hd (map (\<lambda>i. passages ! i) order) = hd passages
      \<and> (\<forall>k. 0 < k \<and> k < length passages
              \<and> ordered_on (fl_lt X)
                  ((\<lambda>i. avg_similarity_to_result X (embedding_fn vdb (map content passages))
                          i (take k order)) ` set (drop k order))
            \<longrightarrow> (\<forall>i \<in> set (drop k order).
                   \<not> fl_lt X
                       (avg_similarity_to_result X (embedding_fn vdb (map content passages))
                          i (take k order))
                       (avg_similarity_to_result X (embedding_fn vdb (map content passages))
                          (order ! k) (take k order))))"
proof -
  let ?embs = "embedding_fn vdb (map content passages)"
  let ?n = "length passages"
  let ?order = "diversity_loop (fl_lt X) (avg_similarity_to_result X ?embs) [1..<?n] [0]"
  have n: "0 < ?n"
    using assms(2) by simp
  have shapes: "list_all (\<lambda>e. length e = length (hd ?embs)) (take ?n ?embs)"
    using assms(4) by (simp add: list_all_iff)
  have r: "rerank_with_diversity X A passages = (Inr (map (\<lambda>i. passages ! i) ?order), [])"
    using assms(1,3) n shapes by (simp add: rerank_with_diversity_def Let_def)
  have "mset ?order = mset [0] + mset [1..<?n]"
    by (rule diversity_loop_mset)
  also have "\<dots> = mset (0 # [Suc 0..<?n])"
    by simp
  also have "0 # [Suc 0..<?n] = [0..<?n]"
    using n by (simp add: upt_conv_Cons)
  finally have m: "mset ?order = mset [0..<?n]" .
  have "mset (map (\<lambda>i. passages ! i) ?order) = image_mset (\<lambda>i. passages ! i) (mset [0..<?n])"
    using m by (metis mset_map)
  also have "\<dots> = mset (map (\<lambda>i. passages ! i) [0..<?n])"
    by simp
  also have "\<dots> = mset passages"
    by (simp add: map_nth)
  finally have mp: "mset (map (\<lambda>i. passages ! i) ?order) = mset passages" .
  obtain rest where rest: "?order = [0] @ rest"
    using diversity_loop_prefix by blast
  have o0: "?order ! 0 = 0"
    unfolding rest by simp
  have len: "length ?order = ?n"
    using m by (metis length_upt mset_eq_length diff_zero)
  have "hd (map (\<lambda>i. passages ! i) ?order) = passages ! 0"
    unfolding rest by simp
  then have h: "hd (map (\<lambda>i. passages ! i) ?order) = hd passages"
    using assms(2) by (simp add: hd_conv_nth)
  have g: "\<forall>k. 0 < k \<and> k < ?n
              \<and> ordered_on (fl_lt X)
                  ((\<lambda>i. avg_similarity_to_result X ?embs i (take k ?order)) ` set (drop k ?order))
            \<longrightarrow> (\<forall>i \<in> set (drop k ?order).
                   \<not> fl_lt X (avg_similarity_to_result X ?embs i (take k ?order))
                       (avg_similarity_to_result X ?embs (?order ! k) (take k ?order)))"
  proof (intro allI impI)
    fix k
    assume k: "0 < k \<and> k < ?n
              \<and> ordered_on (fl_lt X)
                  ((\<lambda>i. avg_similarity_to_result X ?embs i (take k ?order)) ` set (drop k ?order))"
    then have "length [0 :: nat] \<le> k" and "k < length ?order"
      using len by simp_all
    moreover have "ordered_on (fl_lt X)
                  ((\<lambda>i. avg_similarity_to_result X ?embs i (take k ?order)) ` set (drop k ?order))"
      using k by blast
    ultimately show "\<forall>i \<in> set (drop k ?order).
                   \<not> fl_lt X (avg_similarity_to_result X ?embs i (take k ?order))
                       (avg_similarity_to_result X ?embs (?order ! k) (take k ?order))"
      by (rule diversity_loop_greedy)
  qed
  show ?thesis
    by (intro exI [of _ ?order] conjI) (rule r m mp o0 h g)+
qed

theorem rerank_with_diversity_greedy_witness:
  "vecdb example_agent = Some example_vecdb
   \<and> example_passages \<noteq> []
   \<and> embedding_fn example_vecdb (map content example_passages) = [[1, 0], [1, 0], [0, 1]]
   \<and> rerank_with_diversity example_ext example_agent example_passages
      = (Inr [example_doc ''1'' ''alpha'', example_doc ''3'' ''beta'', example_doc ''2'' ''again''], [])
   \<and> ordered_on (fl_lt example_ext)
        ((\<lambda>i. avg_similarity_to_result example_ext [[1, 0], [1, 0], [0, 1]] i (take 1 [0, 2, 1]))
           ` set (drop 1 [0, 2, 1]))
   \<and> avg_similarity_to_result example_ext [[1, 0], [1, 0], [0, 1]] 2 [0] = 0
   \<and> avg_similarity_to_result example_ext [[1, 0], [1, 0], [0, 1]] 1 [0] = 1
   \<and> \<not> fl_lt example_ext
         (avg_similarity_to_result example_ext [[1, 0], [1, 0], [0, 1]] 1 [0])
         (avg_similarity_to_result example_ext [[1, 0], [1, 0], [0, 1]] 2 [0])
   \<and> (\<exists>order.
        (Inr [example_doc ''1'' ''alpha'', example_doc ''3'' ''beta'', example_doc ''2'' ''again''],
         [])
        = (Inr (map (\<lambda>i. example_passages ! i) order) :: error + document list,
           [] :: event list)
        \<and> mset order = mset [0..<length example_passages]
        \<and> order ! 0 = 0)"
proof -
  let ?embs = "[[1, 0], [1, 0], [0, 1 :: real]]"
  have h1: "vecdb example_agent = Some example_vecdb"
    by (simp add: example_agent_def)
  have h2: "example_passages \<noteq> []"
    by (simp add: example_passages_def)
  have l: "length example_passages = 3"
    by (simp add: example_passages_def)
  have h3: "length example_passages
            \<le> length (embedding_fn example_vecdb (map content example_passages))"
    unfolding example_embeddings l by simp
  have h4: "\<forall>e \<in> set (take (length example_passages)
                          (embedding_fn example_vecdb (map content example_passages))).
           length e = length (hd (embedding_fn example_vecdb (map content example_passages)))"
    unfolding example_embeddings l by simp
  have o: "ordered_on (fl_lt example_ext)
        ((\<lambda>i. avg_similarity_to_result example_ext ?embs i (take 1 [0, 2, 1]))
           ` set (drop 1 [0, 2, 1]))"
    unfolding example_lt by (rule ordered_on_less)
  from rerank_with_diversity_greedy [OF h1 h2 h3 h4, of example_ext]
  obtain order where
    a: "rerank_with_diversity example_ext example_agent example_passages
          = (Inr (map (\<lambda>i. example_passages ! i) order), [])"
    and b: "mset order = mset [0..<length example_passages]"
    and c: "order ! 0 = 0"
    and g: "\<forall>k. 0 < k \<and> k < length example_passages
              \<and> ordered_on (fl_lt example_ext)
                  ((\<lambda>i. avg_similarity_to_result example_ext
                          (embedding_fn example_vecdb (map content example_passages))
                          i (take k order)) ` set (drop k order))
            \<longrightarrow> (\<forall>i \<in> set (drop k order).
                   \<not> fl_lt example_ext
                       (avg_similarity_to_result example_ext
                          (embedding_fn example_vecdb (map content example_passages))
                          i (take k order))
                       (avg_similarity_to_result example_ext
                          (embedding_fn example_vecdb (map content example_passages))
                          (order ! k) (take k order)))"
    by blast
  have a': "(Inr [example_doc ''1'' ''alpha'', example_doc ''3'' ''beta'',
                  example_doc ''2'' ''again''], [])
        = (Inr (map (\<lambda>i. example_passages ! i) order) :: error + document list,
           [] :: event list)"
    using a unfolding diversity_example_run .
  have e: "\<exists>order.
        (Inr [example_doc ''1'' ''alpha'', example_doc ''3'' ''beta'', example_doc ''2'' ''again''],
         [])
        = (Inr (map (\<lambda>i. example_passages ! i) order) :: error + document list,
           [] :: event list)
        \<and> mset order = mset [0..<length example_passages]
        \<and> order ! 0 = 0"
    by (intro exI [of _ order] conjI) (rule a' b c)+
  have cmp: "\<not> fl_lt example_ext
         (avg_similarity_to_result example_ext ?embs 1 [0])
         (avg_similarity_to_result example_ext ?embs 2 [0])"
    unfolding example_lt example_avg_1 example_avg_2 by simp
  show ?thesis
    using h1 h2 example_embeddings diversity_example_run o example_avg_1 example_avg_2 cmp e
    by blast
qed

section \<open>Deduplication in the retrieval orchestrator\<close>


lemma dict_set_keys:
  "map fst (dict_set d k v) = (if k \<in> set (map fst d) then map fst d else map fst d @ [k])"
  by (induction d) (auto simp add: rev_image_eqI)

lemma dict_set_distinct: "distinct (map fst d) \<Longrightarrow> distinct (map fst (dict_set d k v))"
  by (simp add: dict_set_keys)

lemma map_of_dict_set: "map_of (dict_set d k v) = (map_of d)(k \<mapsto> v)"
  by (induction d) auto

lemma dict_comprehension_snoc:
  "dict_comprehension kf vf (xs @ [x]) = dict_set (dict_comprehension kf vf xs) (kf x) (vf x)"
  by (simp add: dict_comprehension_def)

lemma dict_comprehension_distinct: "distinct (map fst (dict_comprehension kf vf xs))"
proof (induction xs rule: rev_induct)
  case Nil
  then show ?case by (simp add: dict_comprehension_def)
next
  case (snoc x xs)
  then show ?case by (simp only: dict_comprehension_snoc dict_set_distinct)
qed

lemma dict_comprehension_lookup:
  "map_of (dict_comprehension kf vf xs) k
     = (if filter (\<lambda>x. kf x = k) xs = [] then None
        else Some (vf (last (filter (\<lambda>x. kf x = k) xs))))"
proof (induction xs rule: rev_induct)
  case Nil
  then show ?case by (simp add: dict_comprehension_def)
next
  case (snoc x xs)
  then show ?case
    by (simp add: dict_comprehension_snoc map_of_dict_set)
qed

lemma dict_comprehension_entry:
  assumes "(k, v) \<in> set (dict_comprehension kf vf xs)"
  shows "filter (\<lambda>x. kf x = k) xs \<noteq> [] \<and> v = vf (last (filter (\<lambda>x. kf x = k) xs))"
proof -
  have "map_of (dict_comprehension kf vf xs) k = Some v"
    using assms dict_comprehension_distinct [of kf vf xs] by simp
  then show ?thesis
    by (simp add: dict_comprehension_lookup split: if_splits)
qed

lemma last_filter_key:
  assumes "filter (\<lambda>x. kf x = k) xs \<noteq> []"
  shows "kf (last (filter (\<lambda>x. kf x = k) xs)) = k"
proof -
  have "last (filter (\<lambda>x. kf x = k) xs) \<in> set (filter (\<lambda>x. kf x = k) xs)"
    using assms by (rule last_in_set)
  then show ?thesis by simp
qed

text \<open>With the identity as value function, every entry is stored under its own key.\<close>

lemma dict_values_keys:
  "map kf (dict_values (dict_comprehension kf (\<lambda>x. x) xs))
     = map fst (dict_comprehension kf (\<lambda>x. x) xs)"
proof -
  have "\<forall>e \<in> set (dict_comprehension kf (\<lambda>x. x) xs). kf (snd e) = fst e"
  proof
    fix e assume "e \<in> set (dict_comprehension kf (\<lambda>x. x) xs)"
    then have "(fst e, snd e) \<in> set (dict_comprehension kf (\<lambda>x. x) xs)"
      by simp
    then show "kf (snd e) = fst e"
      using dict_comprehension_entry [of "fst e" "snd e" kf "\<lambda>x. x" xs] last_filter_key [of kf "fst e" xs]
      by simp
  qed
  then show ?thesis
    by (simp add: dict_values_def)
qed

lemma dict_values_distinct:
  "distinct (map kf (dict_values (dict_comprehension kf (\<lambda>x. x) xs)))"
  by (simp only: dict_values_keys dict_comprehension_distinct)

lemma dict_values_last:
  assumes "v \<in> set (dict_values (dict_comprehension kf (\<lambda>x. x) xs))"
  shows "v = last (filter (\<lambda>x. kf x = kf v) xs) \<and> v \<in> set xs"
proof -
  obtain k where kv: "(k, v) \<in> set (dict_comprehension kf (\<lambda>x. x) xs)"
    using assms by (auto simp add: dict_values_def)
  then have ne: "filter (\<lambda>x. kf x = k) xs \<noteq> []"
    and v: "v = last (filter (\<lambda>x. kf x = k) xs)"
    using dict_comprehension_entry [of k v kf "\<lambda>x. x" xs] by simp_all
  have "kf v = k"
    using last_filter_key [OF ne] v by simp
  moreover have "v \<in> set (filter (\<lambda>x. kf x = k) xs)"
    using last_in_set [OF ne] v by simp
  ultimately show ?thesis using v by simp
qed

lemma dict_comprehension_keys_set:
  "set (map fst (dict_comprehension kf vf xs)) = kf ` set xs"
proof (induction xs rule: rev_induct)
  case Nil
  then show ?case by (simp add: dict_comprehension_def)
next
  case (snoc x xs)
  then show ?case
    by (auto simp add: dict_comprehension_snoc dict_set_keys)
qed

lemma dict_values_keys_set:
  "kf ` set (dict_values (dict_comprehension kf (\<lambda>x. x) xs)) = kf ` set xs"
  using dict_values_keys [of kf xs] dict_comprehension_keys_set [of kf "\<lambda>x. x" xs]
  by (metis set_map)


lemma unique_passages_distinct: "distinct (map (doc_id X) (unique_passages X passages))"
  by (simp only: unique_passages_def Let_def dict_values_distinct)

lemma unique_docs_and_scores_eq:
  "unique_docs_and_scores X hits
     = dict_values (dict_comprehension (\<lambda>(d, s). doc_id X d) (\<lambda>x. x) hits)"
proof -
  have "(\<lambda>(d :: document, s :: real). (d, s)) = (\<lambda>x. x)"
    by auto
  then show ?thesis
    by (simp add: unique_docs_and_scores_def)
qed

lemma distinct_map_submset:
  assumes "mset ys \<subseteq># mset xs" and "distinct (map f xs)"
  shows "distinct (map f ys)"
proof -
  have sub: "mset (map f ys) \<subseteq># mset (map f xs)"
    using assms(1) by (simp add: image_mset_subseteq_mono)
  have "\<forall>a. count (mset (map f ys)) a \<le> 1"
  proof
    fix a
    have "count (mset (map f ys)) a \<le> count (mset (map f xs)) a"
      using sub by (rule mset_subset_eq_count)
    also have "\<dots> \<le> 1"
      using assms(2) by (simp add: distinct_count_atmost_1)
    finally show "count (mset (map f ys)) a \<le> 1" .
  qed
  then show ?thesis
    by (metis count_mset_0_iff distinct_count_atmost_1 le_antisym not_less_eq_eq
          One_nat_def le0 not_gr_zero less_one)
qed

lemma mset_slice_to: "mset (slice_to n xs) \<subseteq># mset xs"
proof -
  have "mset (take k xs) \<subseteq># mset xs" for k
    by (metis append_take_drop_id mset_append mset_subset_eq_add_left)
  then show ?thesis
    by (simp add: slice_to_def)
qed

lemma mset_map_snd_zip: "mset (map snd (zip xs ys)) \<subseteq># mset ys"
proof -
  have "mset (take k ys) \<subseteq># mset ys" for k
    by (metis append_take_drop_id mset_append mset_subset_eq_add_left)
  then show ?thesis
    by (simp only: map_snd_zip_take)
qed

lemma rerank_with_cross_encoder_submset:
  assumes "rerank_with_cross_encoder X A query passages = Inr out"
  shows "mset out \<subseteq># mset passages"
proof -
  obtain CE where ce: "cross_encoder X = Some CE"
    using assms by (cases "cross_encoder X") (simp_all add: rerank_with_cross_encoder_def)
  let ?pairs = "zip (map (logistic X) (CE (cross_encoder_reranking_model (cfg A))
                                      (map (\<lambda>p. (query, content p)) passages))) passages"
  have out: "out = map snd (slice_to (n_similar_docs (cfg A))
                              (sorted_reverse (fl_lt X) fst ?pairs))"
    using assms ce by (simp add: rerank_with_cross_encoder_def)
  have "mset out \<subseteq># image_mset snd (mset (sorted_reverse (fl_lt X) fst ?pairs))"
    unfolding out
    using mset_slice_to [of "n_similar_docs (cfg A)" "sorted_reverse (fl_lt X) fst ?pairs"]
    by (simp add: image_mset_subseteq_mono)
  also have "\<dots> = mset (map snd ?pairs)"
    by (simp add: sorted_reverse_mset)
  also have "\<dots> \<subseteq># mset passages"
    by (rule mset_map_snd_zip)
  finally show ?thesis .
qed

lemma mset_map_nth_order:
  assumes "mset order = mset [0..<length ps]"
  shows "mset (map (\<lambda>i. ps ! i) order) = mset ps"
proof -
  have "mset (map (\<lambda>i. ps ! i) order) = image_mset (\<lambda>i. ps ! i) (mset [0..<length ps])"
    using assms by (metis mset_map)
  also have "\<dots> = mset (map (\<lambda>i. ps ! i) [0..<length ps])"
    by simp
  also have "\<dots> = mset ps"
    by (simp add: map_nth)
  finally show ?thesis .
qed

lemma diversity_order_mset:
  assumes "0 < n"
  shows "mset (diversity_loop lt avg [1..<n] [0]) = mset [0..<n]"
proof -
  have "mset (diversity_loop lt avg [1..<n] [0]) = mset [0] + mset [1..<n]"
    by (rule diversity_loop_mset)
  also have "\<dots> = mset (0 # [Suc 0..<n])"
    by simp
  also have "0 # [Suc 0..<n] = [0..<n]"
    using assms by (simp add: upt_conv_Cons)
  finally show ?thesis .
qed

lemma rerank_with_diversity_mset:
  assumes "rerank_with_diversity X A passages = (Inr out, ev)"
  shows "mset out = mset passages"
proof (cases "vecdb A")
  case None
  then show ?thesis
    using assms by (simp add: rerank_with_diversity_def)
next
  case (Some vdb)
  have n: "0 < length passages"
    using assms Some by (auto simp add: rerank_with_diversity_def Let_def split: if_splits)
  have "out = map (\<lambda>i. passages ! i)
                (diversity_loop (fl_lt X)
                   (avg_similarity_to_result X (embedding_fn vdb (map content passages)))
                   [1..<length passages] [0])"
    using assms Some by (auto simp add: rerank_with_diversity_def Let_def split: if_splits)
  then show ?thesis
    using mset_map_nth_order [OF diversity_order_mset [OF n]] by simp
qed

lemma add_context_window_distinct:
  assumes "distinct (map (\<lambda>(d, s). doc_id X d) docs_scores)"
    and "\<And>vdb ds. vecdb A = Some vdb \<Longrightarrow> distinct (map (\<lambda>(d, s). doc_id X d) ds)
           \<Longrightarrow> distinct (map (\<lambda>(d, s). doc_id X d)
                          (vecdb_add_context_window vdb ds (n_neighbor_chunks (cfg A))))"
  shows "distinct (map (\<lambda>(d, s). doc_id X d) (add_context_window A docs_scores))"
proof (cases "vecdb A")
  case None
  then show ?thesis
    using assms(1) by (simp add: add_context_window_def)
next
  case (Some vdb)
  then show ?thesis
    using assms(1) assms(2) [OF Some assms(1)]
    by (simp add: add_context_window_def)
qed

lemma rerank_stages_distinct:
  assumes "rerank_stages X A query passages = (Inr out, ev)"
    and "distinct (map (doc_id X) passages)"
    and "\<And>vdb ds. vecdb A = Some vdb \<Longrightarrow> distinct (map (\<lambda>(d, s). doc_id X d) ds)
           \<Longrightarrow> distinct (map (\<lambda>(d, s). doc_id X d)
                          (vecdb_add_context_window vdb ds (n_neighbor_chunks (cfg A))))"
  shows "distinct (map (doc_id X) out)"
proof -
  let ?ps1 = "map fst (add_context_window A (map (\<lambda>p. (p, 0)) passages))"
  have a: "distinct (map (\<lambda>(d, s). doc_id X d) (map (\<lambda>p. (p, 0 :: real)) passages))"
    using assms(2) by (simp add: comp_def)
  have "distinct (map (\<lambda>(d, s). doc_id X d) (add_context_window A (map (\<lambda>p. (p, 0)) passages)))"
  proof (rule add_context_window_distinct)
    show "distinct (map (\<lambda>(d, s). doc_id X d) (map (\<lambda>p. (p, 0 :: real)) passages))"
      by (rule a)
  next
    fix vdb and ds :: "(document \<times> real) list"
    assume "vecdb A = Some vdb" and "distinct (map (\<lambda>(d, s). doc_id X d) ds)"
    then show "distinct (map (\<lambda>(d, s). doc_id X d)
                          (vecdb_add_context_window vdb ds (n_neighbor_chunks (cfg A))))"
      by (rule assms(3))
  qed
  then have d1: "distinct (map (doc_id X) ?ps1)"
    by (simp add: case_prod_unfold comp_def)
  obtain ps2 where ps2:
    "(if cross_encoder_reranking_model (cfg A) \<noteq> []
      then rerank_with_cross_encoder X A query ?ps1 else Inr ?ps1) = Inr ps2"
    using assms(1)
    by (cases "if cross_encoder_reranking_model (cfg A) \<noteq> []
      then rerank_with_cross_encoder X A query ?ps1 else Inr ?ps1")
       (simp_all add: rerank_stages_def Let_def)
  have "mset ps2 \<subseteq># mset ?ps1"
  proof (cases "cross_encoder_reranking_model (cfg A) \<noteq> []")
    case True
    then have "rerank_with_cross_encoder X A query ?ps1 = Inr ps2"
      using ps2 by simp
    then show ?thesis
      by (rule rerank_with_cross_encoder_submset)
  next
    case False
    then have "?ps1 = ps2"
      using ps2 by simp
    then show ?thesis
      by (simp only: subset_mset.order_refl)
  qed
  then have d2: "distinct (map (doc_id X) ps2)"
    using d1 by (rule distinct_map_submset)
  obtain ps3 ev3 where ps3:
    "(if rerank_diversity (cfg A) then rerank_with_diversity X A ps2 else (Inr ps2, []))
       = (Inr ps3, ev3)"
    using assms(1) ps2
    by (cases "if rerank_diversity (cfg A) then rerank_with_diversity X A ps2 else (Inr ps2, [])")
       (auto simp add: rerank_stages_def Let_def split: sum.splits)
  have "mset ps3 = mset ps2"
  proof (cases "rerank_diversity (cfg A)")
    case True
    then have "rerank_with_diversity X A ps2 = (Inr ps3, ev3)"
      using ps3 by simp
    then show ?thesis
      by (rule rerank_with_diversity_mset)
  next
    case False
    then show ?thesis
      using ps3 by simp
  qed
  then have d3: "distinct (map (doc_id X) ps3)"
    using d2 distinct_map_submset [of ps3 ps2 "doc_id X"] by simp
  have out: "out = (if rerank_periphery (cfg A) then rerank_to_periphery ps3 else ps3)"
    using assms(1) ps2 ps3 by (simp add: rerank_stages_def Let_def)
  have "mset out = mset ps3"
    unfolding out by (simp add: mset_rerank_to_periphery)
  then show ?thesis
    using d3 distinct_map_submset [of out ps3 "doc_id X"] by simp
qed

lemma merge_and_rerank_cases:
  assumes "merge_and_rerank X A query m kept = (Inr out, ev)"
  shows "out = []
    \<or> (\<exists>passages ev3. rerank_stages X A query (unique_passages X passages) = (Inr out, ev3))"
  using assms
  by (auto simp add: merge_and_rerank_def Let_def split: prod.splits if_splits)

text \<open>
  With a vector store, the loop over the query and its proxies collects the hits of the
  queries in order.
\<close>

lemma semantic_hits_concat:
  assumes "vecdb A = Some vdb"
  shows "semantic_hits A k qs acc
         = Inr (acc @ concat (map (\<lambda>q. similar_texts_with_scores vdb q k (filter_cond (cfg A))) qs))"
  using assms
  by (induction qs arbitrary: acc) (simp_all add: get_semantic_search_results_def)

lemma get_relevant_chunks_unfold:
  assumes "vecdb A = Some vdb"
  shows "get_relevant_chunks X A query query_proxies
    = merge_and_rerank X A query
        (if cross_encoder_reranking_model (cfg A) = [] then 1 else 3)
        (unique_docs_and_scores X
           (concat (map (\<lambda>q. similar_texts_with_scores vdb q
                               (n_similar_docs (cfg A)
                                * (if cross_encoder_reranking_model (cfg A) = [] then 1 else 3))
                               (filter_cond (cfg A)))
                      (query # query_proxies))))"
  unfolding get_relevant_chunks_def Let_def
  using assms
  by (simp only: semantic_hits_concat [OF assms] append_Nil sum.case option.distinct if_False)

lemma example_hits:
  "concat (map (\<lambda>q. similar_texts_with_scores example_vecdb q k c) [q0])
   = [(example_doc ''1'' ''alpha'', 9), (example_doc ''2'' ''beta'', 8),
      (example_doc ''1'' ''again'', 7)]"
  by (simp add: example_vecdb_def)

lemma window_hits:
  "concat (map (\<lambda>q. similar_texts_with_scores window_vecdb q k c) [q0])
   = [(example_doc ''1'' ''alpha'', 9), (example_doc ''2'' ''beta'', 8),
      (example_doc ''1'' ''again'', 7)]"
  by (simp add: window_vecdb_def example_vecdb_def)

lemma example_unique_docs_and_scores:
  "unique_docs_and_scores example_ext
     [(example_doc ''1'' ''alpha'', 9), (example_doc ''2'' ''beta'', 8),
      (example_doc ''1'' ''again'', 7)]
   = [(example_doc ''1'' ''again'', 7), (example_doc ''2'' ''beta'', 8)]"
  by (simp add: unique_docs_and_scores_def dict_comprehension_def dict_values_def
        example_ext_def example_doc_def str_def)

lemma example_unique_passages:
  "unique_passages example_ext [example_doc ''1'' ''again'', example_doc ''2'' ''beta'']
   = [example_doc ''1'' ''again'', example_doc ''2'' ''beta'']"
  by (simp add: unique_passages_def dict_comprehension_def dict_values_def
        example_ext_def example_doc_def str_def)

text \<open>
  Counterexample to C1 as stated. The window store files both expanded passages under
  the id of their source file, and nothing after the expansion removes duplicates:
  \<^verbatim>\<open>get_relevant_chunks\<close> returns two passages with the same id.
\<close>

theorem get_relevant_chunks_window_ids_counterexample:
  "get_relevant_chunks example_ext window_agent (str ''q'') []
     = (Inr [example_doc ''notes.txt'' ''again'', example_doc ''notes.txt'' ''beta''], [])
   \<and> map (doc_id example_ext)
        [example_doc ''notes.txt'' ''again'', example_doc ''notes.txt'' ''beta'']
      = [str ''notes.txt'', str ''notes.txt'']
   \<and> \<not> distinct (map (doc_id example_ext)
                    [example_doc ''notes.txt'' ''again'', example_doc ''notes.txt'' ''beta''])"
proof (intro conjI)
  have v: "vecdb window_agent = Some window_vecdb"
    by (simp add: window_agent_def)
  have c: "cross_encoder_reranking_model (cfg window_agent) = []"
    "\<not> use_bm25_search (cfg window_agent)" "\<not> use_fuzzy_match (cfg window_agent)"
    "\<not> rerank_diversity (cfg window_agent)" "\<not> rerank_periphery (cfg window_agent)"
    "n_neighbor_chunks (cfg window_agent) = 1"
    by (simp_all add: window_agent_def)
  have w: "add_context_window window_agent
             (map (\<lambda>p. (p, 0)) [example_doc ''1'' ''again'', example_doc ''2'' ''beta''])
           = [(example_doc ''notes.txt'' ''again'', 0), (example_doc ''notes.txt'' ''beta'', 0)]"
  proof -
    have "add_context_window window_agent
             (map (\<lambda>p. (p, 0)) [example_doc ''1'' ''again'', example_doc ''2'' ''beta''])
          = vecdb_add_context_window window_vecdb
             [(example_doc ''1'' ''again'', 0), (example_doc ''2'' ''beta'', 0)] 1"
      by (simp add: add_context_window_def v c fields_of_example_doc)
    also have "\<dots> = [(example_doc ''notes.txt'' ''again'', 0),
                      (example_doc ''notes.txt'' ''beta'', 0)]"
      by (simp add: window_vecdb_def example_doc_def)
    finally show ?thesis .
  qed
  have s: "rerank_stages example_ext window_agent (str ''q'')
             [example_doc ''1'' ''again'', example_doc ''2'' ''beta'']
           = (Inr [example_doc ''notes.txt'' ''again'', example_doc ''notes.txt'' ''beta''], [])"
    unfolding rerank_stages_def Let_def w
    using c by simp
  have m: "merge_and_rerank example_ext window_agent (str ''q'') 1
             [(example_doc ''1'' ''again'', 7), (example_doc ''2'' ''beta'', 8)]
           = (Inr [example_doc ''notes.txt'' ''again'', example_doc ''notes.txt'' ''beta''], [])"
    unfolding merge_and_rerank_def Let_def
    using c by (simp add: example_unique_passages s)
  show "get_relevant_chunks example_ext window_agent (str ''q'') []
     = (Inr [example_doc ''notes.txt'' ''again'', example_doc ''notes.txt'' ''beta''], [])"
    unfolding get_relevant_chunks_unfold [OF v] window_hits example_unique_docs_and_scores
    using c m by simp
  show ids: "map (doc_id example_ext)
        [example_doc ''notes.txt'' ''again'', example_doc ''notes.txt'' ''beta'']
      = [str ''notes.txt'', str ''notes.txt'']"
    by (simp add: example_ext_def example_doc_def)
  show "\<not> distinct (map (doc_id example_ext)
                    [example_doc ''notes.txt'' ''again'', example_doc ''notes.txt'' ''beta''])"
    unfolding ids by simp
qed

text \<open>
  C1, amended. Take the expansion of the vector store, which is not part of this module,
  to return pairwise distinct ids whenever it is given pairwise distinct ids. Then every
  passage list that \<^verbatim>\<open>get_relevant_chunks\<close> returns contains at most one entry per
  document id. And in every run that returns, the semantic hits of the query and its
  proxies, merged in this order, are reduced to one (document, score) pair for every id
  that occurs among them, the last one with that id in the merged list (last write
  wins); the run continues on the pairs kept.
\<close>

theorem get_relevant_chunks_unique_ids:
  assumes "get_relevant_chunks X A query query_proxies = (Inr out, ev)"
    and "\<And>vdb ds. vecdb A = Some vdb \<Longrightarrow> distinct (map (\<lambda>(d, s). doc_id X d) ds)
           \<Longrightarrow> distinct (map (\<lambda>(d, s). doc_id X d)
                          (vecdb_add_context_window vdb ds (n_neighbor_chunks (cfg A))))"
  shows "\<exists>vdb hits kept.
      vecdb A = Some vdb
      \<and> hits = concat (map (\<lambda>q. similar_texts_with_scores vdb q
                                   (n_similar_docs (cfg A)
                                    * (if cross_encoder_reranking_model (cfg A) = []
                                       then 1 else 3))
                                   (filter_cond (cfg A)))
                          (query # query_proxies))
      \<and> kept = unique_docs_and_scores X hits
      \<and> get_relevant_chunks X A query query_proxies
          = merge_and_rerank X A query
              (if cross_encoder_reranking_model (cfg A) = [] then 1 else 3) kept
      \<and> distinct (map (\<lambda>(d, s). doc_id X d) kept)
      \<and> (\<lambda>(d, s). doc_id X d) ` set kept = (\<lambda>(d, s). doc_id X d) ` set hits
      \<and> (\<forall>(d, s) \<in> set kept.
            (d, s) = last (filter (\<lambda>(d', s'). doc_id X d' = doc_id X d) hits))
      \<and> distinct (map (doc_id X) out)"
proof -
  obtain vdb where v: "vecdb A = Some vdb"
    using assms(1) by (cases "vecdb A") (simp_all add: get_relevant_chunks_def Let_def)
  let ?m = "if cross_encoder_reranking_model (cfg A) = [] then 1 else 3 :: int"
  let ?hits = "concat (map (\<lambda>q. similar_texts_with_scores vdb q
                                   (n_similar_docs (cfg A) * ?m) (filter_cond (cfg A)))
                          (query # query_proxies))"
  let ?kept = "unique_docs_and_scores X ?hits"
  have u: "get_relevant_chunks X A query query_proxies = merge_and_rerank X A query ?m ?kept"
    by (rule get_relevant_chunks_unfold [OF v])
  have d: "distinct (map (\<lambda>(d, s). doc_id X d) ?kept)"
    by (simp only: unique_docs_and_scores_eq dict_values_distinct)
  have i: "(\<lambda>(d, s). doc_id X d) ` set ?kept = (\<lambda>(d, s). doc_id X d) ` set ?hits"
    by (simp only: unique_docs_and_scores_eq dict_values_keys_set)
  have l: "\<forall>(d, s) \<in> set ?kept.
          (d, s) = last (filter (\<lambda>(d', s'). doc_id X d' = doc_id X d) ?hits)"
  proof (intro ballI, clarify)
    fix d s
    assume "(d, s) \<in> set ?kept"
    then have "(d, s) \<in> set (dict_values (dict_comprehension (\<lambda>(d, s). doc_id X d) (\<lambda>x. x) ?hits))"
      by (simp only: unique_docs_and_scores_eq)
    then have "(d, s) = last (filter (\<lambda>x. (\<lambda>(d, s). doc_id X d) x = (\<lambda>(d, s). doc_id X d) (d, s)) ?hits)"
      using dict_values_last [of "(d, s)" "\<lambda>(d, s). doc_id X d" ?hits] by blast
    then show "(d, s) = last (filter (\<lambda>(d', s'). doc_id X d' = doc_id X d) ?hits)"
      by (simp add: case_prod_unfold)
  qed
  have o: "distinct (map (doc_id X) out)"
  proof -
    have "merge_and_rerank X A query ?m ?kept = (Inr out, ev)"
      using assms(1) unfolding u .
    from merge_and_rerank_cases [OF this]
    consider "out = []"
      | passages ev3 where "rerank_stages X A query (unique_passages X passages) = (Inr out, ev3)"
      by blast
    then show ?thesis
    proof cases
      case 1
      then show ?thesis by simp
    next
      case 2
      then show ?thesis
        using unique_passages_distinct [of X passages] assms(2)
        by (rule rerank_stages_distinct)
    qed
  qed
  show ?thesis
    by (intro exI [of _ vdb] exI [of _ ?hits] exI [of _ ?kept] conjI)
       (rule v refl u d i l o)+
qed

lemma example_expander_ids:
  "map (\<lambda>(d, s). doc_id example_ext d) (vecdb_add_context_window example_vecdb ds n)
   = map (\<lambda>(d, s). doc_id example_ext d) ds"
  by (simp add: example_vecdb_def example_ext_def comp_def case_prod_unfold)

lemma expanded_cross_encoder_run:
  "rerank_with_cross_encoder example_ext
     (example_agent\<lparr>cfg := example_config\<lparr>n_neighbor_chunks := 1\<rparr>\<rparr>) (str ''q'')
     [example_doc ''1'' ''again+'', example_doc ''2'' ''beta+'']
   = Inr [example_doc ''1'' ''again+'', example_doc ''2'' ''beta+'']"
proof -
  have ce: "cross_encoder example_ext = Some example_cross_encoder"
    by (simp add: example_ext_def)
  have sc: "map (logistic example_ext)
              (example_cross_encoder name
                 (map (\<lambda>p. (q, content p))
                    [example_doc ''1'' ''again+'', example_doc ''2'' ''beta+'']))
            = [1, 1]" for name q
    by (simp add: example_cross_encoder_def example_doc_def str_def example_logistic_large)
  show ?thesis
    unfolding rerank_with_cross_encoder_def Let_def ce option.case sc
    by (simp add: slice_to_def sorted_reverse_def example_lt example_config_def)
qed

lemma expanded_diversity_run:
  "rerank_with_diversity example_ext
     (example_agent\<lparr>cfg := example_config\<lparr>n_neighbor_chunks := 1\<rparr>\<rparr>)
     [example_doc ''1'' ''again+'', example_doc ''2'' ''beta+'']
   = (Inr [example_doc ''1'' ''again+'', example_doc ''2'' ''beta+''], [])"
proof -
  have v: "vecdb (example_agent\<lparr>cfg := example_config\<lparr>n_neighbor_chunks := 1\<rparr>\<rparr>)
           = Some example_vecdb"
    by (simp add: example_agent_def)
  have e: "embedding_fn example_vecdb
             (map content [example_doc ''1'' ''again+'', example_doc ''2'' ''beta+''])
           = [[1, 0], [0, 1]]"
    by (simp add: example_vecdb_def example_doc_def str_def)
  have u: "[1..<2] = [1]"
    by (simp add: upt_rec)
  show ?thesis
    unfolding rerank_with_diversity_def v option.case Let_def e
    by (simp add: u)
qed

lemma expanded_get_relevant_chunks:
  "get_relevant_chunks example_ext
     (example_agent\<lparr>cfg := example_config\<lparr>n_neighbor_chunks := 1\<rparr>\<rparr>) (str ''q'') []
   = (Inr [example_doc ''1'' ''again+'', example_doc ''2'' ''beta+''],
      [Warning ''No chunked docs; cannot use bm25-similarity''])"
proof -
  let ?A = "example_agent\<lparr>cfg := example_config\<lparr>n_neighbor_chunks := 1\<rparr>\<rparr>"
  have v: "vecdb ?A = Some example_vecdb"
    by (simp add: example_agent_def)
  have c: "cross_encoder_reranking_model (cfg ?A) \<noteq> []"
    "use_bm25_search (cfg ?A)" "use_fuzzy_match (cfg ?A)"
    "rerank_diversity (cfg ?A)" "rerank_periphery (cfg ?A)"
    "n_similar_docs (cfg ?A) = 3" "n_neighbor_chunks (cfg ?A) = 1"
    by (simp_all add: example_config_def str_def)
  have b: "get_similar_chunks_bm25 example_ext ?A (str ''q'') 3
           = ([], [Warning ''No chunked docs; cannot use bm25-similarity''])"
    by (simp add: get_similar_chunks_bm25_def example_agent_def)
  have f: "get_fuzzy_matches example_ext ?A (str ''q'') 3 = ([], [])"
    by (simp add: get_fuzzy_matches_def example_agent_def example_ext_def)
  have w: "add_context_window ?A
             (map (\<lambda>p. (p, 0)) [example_doc ''1'' ''again'', example_doc ''2'' ''beta''])
           = [(example_doc ''1'' ''again+'', 0), (example_doc ''2'' ''beta+'', 0)]"
  proof -
    have "add_context_window ?A
             (map (\<lambda>p. (p, 0)) [example_doc ''1'' ''again'', example_doc ''2'' ''beta''])
          = vecdb_add_context_window example_vecdb
             [(example_doc ''1'' ''again'', 0), (example_doc ''2'' ''beta'', 0)] 1"
      by (simp add: add_context_window_def v fields_of_example_doc)
    also have "\<dots> = [(example_doc ''1'' ''again+'', 0), (example_doc ''2'' ''beta+'', 0)]"
      by (simp add: example_vecdb_def example_doc_def str_def)
    finally show ?thesis .
  qed
  have p: "rerank_to_periphery [example_doc ''1'' ''again+'', example_doc ''2'' ''beta+'']
           = [example_doc ''1'' ''again+'', example_doc ''2'' ''beta+'']"
    by (simp add: rerank_to_periphery_def slice_from1_step2_def)
  have s: "rerank_stages example_ext ?A (str ''q'')
             [example_doc ''1'' ''again'', example_doc ''2'' ''beta'']
           = (Inr [example_doc ''1'' ''again+'', example_doc ''2'' ''beta+''], [])"
    unfolding rerank_stages_def Let_def w
    using c expanded_cross_encoder_run expanded_diversity_run p by simp
  have m: "merge_and_rerank example_ext ?A (str ''q'') 3
             [(example_doc ''1'' ''again'', 7), (example_doc ''2'' ''beta'', 8)]
           = (Inr [example_doc ''1'' ''again+'', example_doc ''2'' ''beta+''],
              [Warning ''No chunked docs; cannot use bm25-similarity''])"
    unfolding merge_and_rerank_def Let_def
    using c by (simp add: b f example_unique_passages s)
  show ?thesis
    unfolding get_relevant_chunks_unfold [OF v] example_hits example_unique_docs_and_scores
    using c m by simp
qed

theorem get_relevant_chunks_unique_ids_witness:
  "get_relevant_chunks example_ext
     (example_agent\<lparr>cfg := example_config\<lparr>n_neighbor_chunks := 1\<rparr>\<rparr>) (str ''q'') []
     = (Inr [example_doc ''1'' ''again+'', example_doc ''2'' ''beta+''],
        [Warning ''No chunked docs; cannot use bm25-similarity''])
   \<and> (\<forall>ds n. map (\<lambda>(d, s). doc_id example_ext d) (vecdb_add_context_window example_vecdb ds n)
               = map (\<lambda>(d, s). doc_id example_ext d) ds)
   \<and> unique_docs_and_scores example_ext
        [(example_doc ''1'' ''alpha'', 9), (example_doc ''2'' ''beta'', 8),
         (example_doc ''1'' ''again'', 7)]
      = [(example_doc ''1'' ''again'', 7), (example_doc ''2'' ''beta'', 8)]
   \<and> distinct (map (doc_id example_ext)
                  [example_doc ''1'' ''again+'', example_doc ''2'' ''beta+''])
   \<and> (example_doc ''1'' ''again'', 7 :: real)
      = last (filter (\<lambda>(d', s'). doc_id example_ext d'
                                   = doc_id example_ext (example_doc ''1'' ''again''))
                [(example_doc ''1'' ''alpha'', 9), (example_doc ''2'' ''beta'', 8),
                 (example_doc ''1'' ''again'', 7)])"
proof -
  let ?A = "example_agent\<lparr>cfg := example_config\<lparr>n_neighbor_chunks := 1\<rparr>\<rparr>"
  let ?hits = "[(example_doc ''1'' ''alpha'', 9 :: real), (example_doc ''2'' ''beta'', 8),
                (example_doc ''1'' ''again'', 7)]"
  have v: "vecdb ?A = Some vdb \<Longrightarrow> vdb = example_vecdb" for vdb
    by (simp add: example_agent_def)
  have h2: "\<And>vdb ds. vecdb ?A = Some vdb
             \<Longrightarrow> distinct (map (\<lambda>(d, s). doc_id example_ext d) ds)
             \<Longrightarrow> distinct (map (\<lambda>(d, s). doc_id example_ext d)
                   (vecdb_add_context_window vdb ds (n_neighbor_chunks (cfg ?A))))"
    using v example_expander_ids by metis
  from get_relevant_chunks_unique_ids [OF expanded_get_relevant_chunks h2]
  obtain vdb hits kept where
    a: "vecdb ?A = Some vdb"
    and b: "hits = concat (map (\<lambda>q. similar_texts_with_scores vdb q
                                   (n_similar_docs (cfg ?A)
                                    * (if cross_encoder_reranking_model (cfg ?A) = []
                                       then 1 else 3))
                                   (filter_cond (cfg ?A)))
                          [str ''q''])"
    and c: "kept = unique_docs_and_scores example_ext hits"
    and l: "\<forall>(d, s) \<in> set kept.
              (d, s) = last (filter (\<lambda>(d', s'). doc_id example_ext d' = doc_id example_ext d) hits)"
    and o: "distinct (map (doc_id example_ext)
                        [example_doc ''1'' ''again+'', example_doc ''2'' ''beta+''])"
    by blast
  have hits: "hits = ?hits"
    unfolding b v [OF a] by (rule example_hits)
  have kept: "kept = [(example_doc ''1'' ''again'', 7), (example_doc ''2'' ''beta'', 8)]"
    unfolding c hits by (rule example_unique_docs_and_scores)
  have "(example_doc ''1'' ''again'', 7 :: real) \<in> set kept"
    unfolding kept by simp
  then have w: "(example_doc ''1'' ''again'', 7)
      = last (filter (\<lambda>(d', s'). doc_id example_ext d'
                                   = doc_id example_ext (example_doc ''1'' ''again'')) ?hits)"
    using l unfolding hits by blast
  show ?thesis
    using expanded_get_relevant_chunks example_expander_ids example_unique_docs_and_scores o w
    by blast
qed

section \<open>Parsing the synthesized answer\<close>


lemma split_first_Some:
  assumes "split_first sep s = Some (a, b)"
  shows "s = a @ sep @ b \<and> (\<forall>a' b'. s = a' @ sep @ b' \<longrightarrow> length a \<le> length a')"
  using assms
proof (induction s arbitrary: a)
  case Nil
  then show ?case by simp
next
  case (Cons c cs)
  show ?case
  proof (cases "take (length sep) (c # cs) = sep")
    case True
    then have "a = []" and "b = drop (length sep) (c # cs)"
      using Cons.prems by simp_all
    then show ?thesis
      using True by (metis append_Nil append_take_drop_id le0 list.size(3))
  next
    case False
    then obtain a1 where a1: "split_first sep cs = Some (a1, b)" and a: "a = c # a1"
      using Cons.prems by (auto split: option.splits)
    have ih: "cs = a1 @ sep @ b \<and> (\<forall>a' b'. cs = a' @ sep @ b' \<longrightarrow> length a1 \<le> length a')"
      using Cons.IH [OF a1] .
    have "length a \<le> length a'" if eq: "c # cs = a' @ sep @ b'" for a' b'
    proof (cases a')
      case Nil
      then have "take (length sep) (c # cs) = sep"
        using eq by simp
      then show ?thesis using False by simp
    next
      case (Cons x a'')
      then have "cs = a'' @ sep @ b'"
        using eq by simp
      then have "length a1 \<le> length a''"
        using ih by blast
      then show ?thesis
        using a Cons by simp
    qed
    then show ?thesis
      using ih a by simp
  qed
qed

lemma split_first_None:
  assumes "split_first sep s = None" and "sep \<noteq> []"
  shows "s \<noteq> a @ sep @ b"
  using assms(1)
proof (induction s arbitrary: a)
  case Nil
  then show ?case using assms(2) by simp
next
  case (Cons c cs)
  have nt: "take (length sep) (c # cs) \<noteq> sep"
    using Cons.prems by (auto split: if_splits)
  have n: "split_first sep cs = None"
    using Cons.prems nt by (simp split: option.splits prod.splits)
  show ?case
  proof (cases a)
    case Nil
    show ?thesis
    proof
      assume "c # cs = a @ sep @ b"
      then have "take (length sep) (c # cs) = sep"
        using Nil by simp
      then show False using nt by simp
    qed
  next
    case (Cons x a')
    show ?thesis
    proof
      assume "c # cs = a @ sep @ b"
      then have "cs = a' @ sep @ b"
        using Cons by simp
      then show False
        using Cons.IH [OF n, of a'] by simp
    qed
  qed
qed

lemma split_first_leftmost:
  assumes "s = a @ sep @ b" and "sep \<noteq> []"
    and "\<forall>a' b'. s = a' @ sep @ b' \<longrightarrow> length a \<le> length a'"
  shows "split_first sep s = Some (a, b)"
proof (cases "split_first sep s")
  case None
  then show ?thesis
    using split_first_None [OF None assms(2), of a b] assms(1) by simp
next
  case (Some r)
  obtain a0 b0 where r: "r = (a0, b0)"
    by (cases r)
  have s0: "s = a0 @ sep @ b0" and min0: "length a0 \<le> length a"
    using split_first_Some [of sep s a0 b0] Some r assms(1) by blast+
  have "length a \<le> length a0"
    using assms(3) s0 by blast
  then have "length a0 = length a"
    using min0 by simp
  then have "a0 = a \<and> b0 = b"
    using s0 assms(1) by (metis append_eq_append_conv same_append_eq)
  then show ?thesis
    using Some r by simp
qed


lemma parse_final_answer_degenerate:
  "startswith final_answer (str ''SOURCE'') \<Longrightarrow> parse_final_answer final_answer = (final_answer, final_answer)"
  by (simp add: parse_final_answer_def)

lemma parse_final_answer_split:
  assumes "\<not> startswith final_answer (str ''SOURCE'')"
    and "final_answer = a @ str ''SOURCE:'' @ b"
    and "\<forall>a' b'. final_answer = a' @ str ''SOURCE:'' @ b' \<longrightarrow> length a \<le> length a'"
  shows "parse_final_answer final_answer = (strip a, strip b)"
proof -
  have "split_first (str ''SOURCE:'') final_answer = Some (a, b)"
    using assms(2) _ assms(3) by (rule split_first_leftmost) (simp add: str_def)
  then have "split_maxsplit1 (str ''SOURCE:'') final_answer = [a, b]"
    by (simp add: split_maxsplit1_def)
  then show ?thesis
    using assms(1) by (simp add: parse_final_answer_def)
qed

lemma parse_final_answer_no_marker:
  assumes "\<not> startswith final_answer (str ''SOURCE'')"
    and "\<forall>a b. final_answer \<noteq> a @ str ''SOURCE:'' @ b"
  shows "parse_final_answer final_answer = (final_answer, [])"
proof -
  have "split_first (str ''SOURCE:'') final_answer = None"
  proof (cases "split_first (str ''SOURCE:'') final_answer")
    case None
    then show ?thesis .
  next
    case (Some r)
    then have "final_answer = fst r @ str ''SOURCE:'' @ snd r"
      using split_first_Some [of "str ''SOURCE:''" final_answer "fst r" "snd r"] by simp
    then show ?thesis
      using assms(2) by blast
  qed
  then have "split_maxsplit1 (str ''SOURCE:'') final_answer = [final_answer]"
    by (simp add: split_maxsplit1_def)
  then show ?thesis
    using assms(1) by (simp add: parse_final_answer_def)
qed

lemma get_summary_answer_result:
  "fst (get_summary_answer X A question passages)
   = (let final_prompt = format_summarize_prompt X (str ''Question:'' @ question) (doc_string passages);
          answer_doc = (if conversation_mode (cfg A)
                        then llm_response_temp_context X question final_prompt
                        else llm_response_forget X final_prompt);
          parsed = parse_final_answer (strip (fst answer_doc))
      in \<lparr>cd_content = fst parsed, cd_source = str ''SOURCE: '' @ snd parsed,
          cd_sender = LLM, cd_cached = snd answer_doc\<rparr>)"
  by (simp add: get_summary_answer_def Let_def case_prod_unfold)

lemma example_strip:
  "strip (str ''The answer is X.'' @ [0x0A] @ str ''SOURCE: doc1.pdf'')
   = str ''The answer is X.'' @ [0x0A] @ str ''SOURCE: doc1.pdf''"
  by (simp add: strip_def is_space_def str_def)

lemma example_split_first:
  "split_first (str ''SOURCE:'') (str ''The answer is X.'' @ [0x0A] @ str ''SOURCE: doc1.pdf'')
   = Some (str ''The answer is X.'' @ [0x0A], str '' doc1.pdf'')"
  by (simp add: str_def)

lemma example_parse:
  "parse_final_answer (str ''The answer is X.'' @ [0x0A] @ str ''SOURCE: doc1.pdf'')
   = (str ''The answer is X.'', str ''doc1.pdf'')"
  by (simp add: parse_final_answer_def startswith_def split_maxsplit1_def strip_def is_space_def
        str_def)

text \<open>
  A response in which no-break spaces (U+00A0) surround the marker: \<^verbatim>\<open>strip\<close> removes
  them as it removes every other white space.
\<close>

lemma example_parse_nbsp:
  "parse_final_answer
     (strip (str ''Answer.'' @ [0xA0] @ str ''SOURCE:'' @ [0xA0] @ str ''doc1.pdf'' @ [0x2003]))
   = (str ''Answer.'', str ''doc1.pdf'')"
  by (simp add: parse_final_answer_def startswith_def split_maxsplit1_def strip_def is_space_def
        str_def)

text \<open>
  C8. \<^verbatim>\<open>get_summary_answer\<close> parses the stripped response of the language model: when
  it begins with the literal \<open>SOURCE\<close>, the whole response is both content and source;
  otherwise, when \<open>SOURCE:\<close> occurs in it, content is the stripped text before the
  leftmost occurrence and source is the stripped text after it. The answer returned
  carries the parsed content, and the parsed source behind the fixed prefix
  \<open>SOURCE: \<close> in its metadata. The response \<open>The answer is X.\<close>, line feed,
  \<open>SOURCE: doc1.pdf\<close> parses to content \<open>The answer is X.\<close> and source \<open>doc1.pdf\<close>.
  Text is a sequence of Unicode code points, and stripping removes the white space of
  Unicode at both ends.
\<close>


theorem get_summary_answer_parsing:
  "(startswith final_answer (str ''SOURCE'')
      \<longrightarrow> parse_final_answer final_answer = (final_answer, final_answer))
   \<and> (\<not> startswith final_answer (str ''SOURCE'') \<and> final_answer = a @ str ''SOURCE:'' @ b
        \<and> (\<forall>a' b'. final_answer = a' @ str ''SOURCE:'' @ b' \<longrightarrow> length a \<le> length a')
      \<longrightarrow> parse_final_answer final_answer = (strip a, strip b))
   \<and> fst (get_summary_answer X A question passages)
       = (let final_prompt =
                format_summarize_prompt X (str ''Question:'' @ question) (doc_string passages);
              answer_doc = (if conversation_mode (cfg A)
                            then llm_response_temp_context X question final_prompt
                            else llm_response_forget X final_prompt);
              parsed = parse_final_answer (strip (fst answer_doc))
          in \<lparr>cd_content = fst parsed, cd_source = str ''SOURCE: '' @ snd parsed,
              cd_sender = LLM, cd_cached = snd answer_doc\<rparr>)
   \<and> parse_final_answer (strip (str ''The answer is X.'' @ [0x0A] @ str ''SOURCE: doc1.pdf''))
       = (str ''The answer is X.'', str ''doc1.pdf'')"
proof (intro conjI impI)
  show "parse_final_answer final_answer = (final_answer, final_answer)"
    if "startswith final_answer (str ''SOURCE'')"
    using that by (rule parse_final_answer_degenerate)
  show "parse_final_answer final_answer = (strip a, strip b)"
    if "\<not> startswith final_answer (str ''SOURCE'') \<and> final_answer = a @ str ''SOURCE:'' @ b
        \<and> (\<forall>a' b'. final_answer = a' @ str ''SOURCE:'' @ b' \<longrightarrow> length a \<le> length a')"
    using that parse_final_answer_split [of final_answer a b] by blast
  show "fst (get_summary_answer X A question passages)
       = (let final_prompt =
                format_summarize_prompt X (str ''Question:'' @ question) (doc_string passages);
              answer_doc = (if conversation_mode (cfg A)
                            then llm_response_temp_context X question final_prompt
                            else llm_response_forget X final_prompt);
              parsed = parse_final_answer (strip (fst answer_doc))
          in \<lparr>cd_content = fst parsed, cd_source = str ''SOURCE: '' @ snd parsed,
              cd_sender = LLM, cd_cached = snd answer_doc\<rparr>)"
    by (rule get_summary_answer_result)
  show "parse_final_answer (strip (str ''The answer is X.'' @ [0x0A] @ str ''SOURCE: doc1.pdf''))
       = (str ''The answer is X.'', str ''doc1.pdf'')"
    by (simp only: example_strip example_parse)
qed

theorem get_summary_answer_parsing_witness:
  "startswith (str ''SOURCE: a.pdf'') (str ''SOURCE'')
   \<and> parse_final_answer (str ''SOURCE: a.pdf'') = (str ''SOURCE: a.pdf'', str ''SOURCE: a.pdf'')
   \<and> \<not> startswith (str ''The answer is X.'' @ [0x0A] @ str ''SOURCE: doc1.pdf'') (str ''SOURCE'')
   \<and> parse_final_answer (str ''The answer is X.'' @ [0x0A] @ str ''SOURCE: doc1.pdf'')
       = (strip (str ''The answer is X.'' @ [0x0A]), strip (str '' doc1.pdf''))
   \<and> strip (str ''The answer is X.'' @ [0x0A]) = str ''The answer is X.''
   \<and> strip (str '' doc1.pdf'') = str ''doc1.pdf''
   \<and> parse_final_answer
        (strip (str ''Answer.'' @ [0xA0] @ str ''SOURCE:'' @ [0xA0] @ str ''doc1.pdf'' @ [0x2003]))
      = (str ''Answer.'', str ''doc1.pdf'')
   \<and> fst (get_summary_answer example_ext example_agent (str ''q'') [])
       = \<lparr>cd_content = str ''The answer is X.'', cd_source = str ''SOURCE: doc1.pdf'',
          cd_sender = LLM, cd_cached = False\<rparr>"
proof -
  let ?s = "str ''The answer is X.'' @ [0x0A] @ str ''SOURCE: doc1.pdf''"
  let ?a = "str ''The answer is X.'' @ [0x0A]"
  have d: "startswith (str ''SOURCE: a.pdf'') (str ''SOURCE'')"
    by (simp add: startswith_def str_def)
  have n: "\<not> startswith ?s (str ''SOURCE'')"
    by (simp add: startswith_def str_def)
  have h: "?s = ?a @ str ''SOURCE:'' @ str '' doc1.pdf''
           \<and> (\<forall>a' b'. ?s = a' @ str ''SOURCE:'' @ b' \<longrightarrow> length ?a \<le> length a')"
    using split_first_Some [OF example_split_first] .
  have p1: "parse_final_answer (str ''SOURCE: a.pdf'') = (str ''SOURCE: a.pdf'', str ''SOURCE: a.pdf'')"
    using get_summary_answer_parsing [of "str ''SOURCE: a.pdf''"] d by blast
  have p2: "parse_final_answer ?s = (strip ?a, strip (str '' doc1.pdf''))"
    using get_summary_answer_parsing [of ?s ?a "str '' doc1.pdf''"] n h by blast
  have s1: "strip ?a = str ''The answer is X.''" and s2: "strip (str '' doc1.pdf'') = str ''doc1.pdf''"
    by (simp_all add: strip_def is_space_def str_def)
  have g: "fst (get_summary_answer example_ext example_agent (str ''q'') [])
       = \<lparr>cd_content = str ''The answer is X.'', cd_source = str ''SOURCE: doc1.pdf'',
          cd_sender = LLM, cd_cached = False\<rparr>"
    by (simp add: get_summary_answer_result example_ext_def example_agent_def
          example_config_def Let_def strip_def is_space_def parse_final_answer_def
          startswith_def split_maxsplit1_def str_def)
  show ?thesis
    using d p1 n p2 s1 s2 example_parse_nbsp g by blast
qed

section \<open>Verbatim extraction copies the passages\<close>


lemma upt_shift: "[n ..< n + Suc k] = n # [Suc n ..< Suc n + k]"
proof -
  have "n < n + Suc k"
    by simp
  then have "[n ..< n + Suc k] = n # [Suc n ..< n + Suc k]"
    by (rule upt_conv_Cons)
  then show ?thesis
    by (simp only: add_Suc_right add_Suc)
qed

lemma extract_loop_spec:
  assumes "\<forall>pe \<in> set pes. fst pe < length h"
  shows "extract_loop no_answer h pes
         = (h @ map (\<lambda>(p, e). (h ! p)\<lparr>content := e\<rparr>) (survivors no_answer pes),
            [length h ..< length h + length (survivors no_answer pes)])"
  using assms
proof (induction pes arbitrary: h)
  case Nil
  then show ?case by (simp add: survivors_def)
next
  case (Cons pe pes)
  obtain p e where pe: "pe = (p, e)"
    by (cases pe)
  show ?case
  proof (cases "e = no_answer \<or> length e = 0")
    case True
    then show ?thesis
      using Cons pe by (simp add: survivors_def)
  next
    case False
    let ?h2 = "h @ [(h ! p)\<lparr>content := e\<rparr>]"
    have h2: "(h @ [h ! p])[length h := ((h @ [h ! p]) ! length h)\<lparr>content := e\<rparr>] = ?h2"
      by simp
    have valid: "\<forall>pe \<in> set pes. fst pe < length ?h2"
      using Cons.prems by auto
    have same: "map (\<lambda>(p, e). (?h2 ! p)\<lparr>content := e\<rparr>) (survivors no_answer pes)
                = map (\<lambda>(p, e). (h ! p)\<lparr>content := e\<rparr>) (survivors no_answer pes)"
      using Cons.prems by (auto simp add: survivors_def nth_append)
    have s: "survivors no_answer (pe # pes) = (p, e) # survivors no_answer pes"
      using False pe by (simp add: survivors_def)
    have "extract_loop no_answer h (pe # pes)
          = (case extract_loop no_answer ?h2 pes of
               (h', passage_extracts) \<Rightarrow> (h', length h # passage_extracts))"
      using False pe h2 by (simp add: Let_def)
    also have "\<dots> = (?h2 @ map (\<lambda>(p, e). (h ! p)\<lparr>content := e\<rparr>) (survivors no_answer pes),
                     length h # [length ?h2 ..< length ?h2 + length (survivors no_answer pes)])"
      using Cons.IH [OF valid] same by simp
    also have "\<dots> = (h @ map (\<lambda>(p, e). (h ! p)\<lparr>content := e\<rparr>) (survivors no_answer (pe # pes)),
            [length h ..< length h + length (survivors no_answer (pe # pes))])"
      unfolding s using upt_shift [of "length h" "length (survivors no_answer pes)"]
      by (simp del: upt_Suc)
    finally show ?thesis .
  qed
qed

text \<open>
  C9. When the relevance extractor is configured, \<^verbatim>\<open>get_verbatim_extracts\<close> leaves
  every object that existed before the call unchanged (the heap only grows), and it
  returns, in order, one new object for every passage whose extract is neither
  \<^verbatim>\<open>NO_ANSWER\<close> nor empty: the passage with \<open>content\<close> replaced by the extract, so
  that \<open>metadata\<close> and every further field are those of the passage.
\<close>


theorem get_verbatim_extracts_copies:
  assumes "relevance_extractor_config (cfg A) = Some agent_cfg"
    and "\<forall>p \<in> set passages. p < length h"
    and "get_verbatim_extracts_heap X A query h passages = ((passage_extracts, h'), A', ev)"
  shows "let extracts = batch_extracts X query (extraction_granularity (cfg A))
                          (map (\<lambda>p. content (h ! p)) passages);
             kept = survivors (NO_ANSWER X) (zip passages extracts)
         in take (length h) h' = h
            \<and> passage_extracts = [length h ..< length h']
            \<and> map (\<lambda>r. h' ! r) passage_extracts = map (\<lambda>(p, e). (h ! p)\<lparr>content := e\<rparr>) kept
            \<and> map (\<lambda>r. metadata (h' ! r)) passage_extracts = map (\<lambda>(p, e). metadata (h ! p)) kept
            \<and> map (\<lambda>r. extra_fields (h' ! r)) passage_extracts
                = map (\<lambda>(p, e). extra_fields (h ! p)) kept
            \<and> map (\<lambda>r. content (h' ! r)) passage_extracts = map snd kept"
proof -
  let ?extracts = "batch_extracts X query (extraction_granularity (cfg A))
                          (map (\<lambda>p. content (h ! p)) passages)"
  let ?kept = "survivors (NO_ANSWER X) (zip passages ?extracts)"
  let ?new = "map (\<lambda>(p, e). (h ! p)\<lparr>content := e\<rparr>) ?kept"
  have valid: "\<forall>pe \<in> set (zip passages ?extracts). fst pe < length h"
    using assms(2) by (auto dest: set_zip_leftD)
  have loop: "extract_loop (NO_ANSWER X) h (zip passages ?extracts)
              = (h @ ?new, [length h ..< length h + length ?kept])"
    using extract_loop_spec [OF valid] .
  have "get_verbatim_extracts_heap X A query h passages
        = (([length h ..< length h + length ?kept], h @ ?new),
           A\<lparr>cfg := (cfg A)\<lparr>relevance_extractor_config :=
                Some (agent_cfg\<lparr>rx_llm_set := True, rx_query := query,
                                rx_segment_length := extraction_granularity (cfg A),
                                rx_stream := False\<rparr>)\<rparr>\<rparr>,
           [LLM_extract_batch])"
    using assms(1) loop by (simp add: get_verbatim_extracts_heap_def Let_def)
  then have out: "passage_extracts = [length h ..< length h + length ?kept]"
    and h': "h' = h @ ?new"
    using assms(3) by simp_all
  have vals: "map (\<lambda>r. h' ! r) passage_extracts = ?new"
  proof (rule nth_equalityI)
    show "length (map (\<lambda>r. h' ! r) passage_extracts) = length ?new"
      unfolding out by simp
  next
    fix i assume "i < length (map (\<lambda>r. h' ! r) passage_extracts)"
    then have i: "i < length ?kept"
      unfolding out by simp
    then have "map (\<lambda>r. h' ! r) passage_extracts ! i = h' ! (length h + i)"
      unfolding out by simp
    also have "\<dots> = ?new ! i"
      unfolding h' by simp
    finally show "map (\<lambda>r. h' ! r) passage_extracts ! i = ?new ! i" .
  qed
  have m: "map (\<lambda>r. metadata (h' ! r)) passage_extracts = map metadata (map (\<lambda>r. h' ! r) passage_extracts)"
    and x: "map (\<lambda>r. extra_fields (h' ! r)) passage_extracts
            = map extra_fields (map (\<lambda>r. h' ! r) passage_extracts)"
    and c: "map (\<lambda>r. content (h' ! r)) passage_extracts
            = map content (map (\<lambda>r. h' ! r) passage_extracts)"
    by (simp_all add: comp_def)
  have "take (length h) h' = h"
    unfolding h' by simp
  moreover have "passage_extracts = [length h ..< length h']"
    unfolding out h' by simp
  moreover have "map (\<lambda>r. metadata (h' ! r)) passage_extracts = map (\<lambda>(p, e). metadata (h ! p)) ?kept"
    unfolding m vals by (simp add: comp_def case_prod_unfold)
  moreover have "map (\<lambda>r. extra_fields (h' ! r)) passage_extracts
                 = map (\<lambda>(p, e). extra_fields (h ! p)) ?kept"
    unfolding x vals by (simp add: comp_def case_prod_unfold)
  moreover have "map (\<lambda>r. content (h' ! r)) passage_extracts = map snd ?kept"
    unfolding c vals by (simp add: comp_def case_prod_unfold)
  ultimately show ?thesis
    using vals by (simp only: Let_def simp_thms)
qed


lemma example_batch_extracts:
  "batch_extracts example_ext (str ''q'') (extraction_granularity (cfg example_agent))
     (map (\<lambda>p. content (example_passages ! p)) [0, 1, 2])
   = [str ''alp'', str ''aga'', str ''DO-NOT-KNOW'']"
  by (simp add: batch_extracts_def example_ext_def example_passages_def example_doc_def str_def)

lemma example_survivors:
  "survivors (NO_ANSWER example_ext) (zip [0, 1, 2] [str ''alp'', str ''aga'', str ''DO-NOT-KNOW''])
   = [(0, str ''alp''), (Suc 0, str ''aga'')]"
  by (simp add: survivors_def example_ext_def str_def)

lemma example_verbatim_run:
  "get_verbatim_extracts_heap example_ext example_agent (str ''q'') example_passages [0, 1, 2]
   = (([3, 4], example_passages @ [example_doc ''1'' ''alp'', example_doc ''2'' ''aga'']),
      example_agent\<lparr>cfg := example_config\<lparr>relevance_extractor_config :=
         Some \<lparr>rx_llm_set = True, rx_query = str ''q'', rx_segment_length = 1, rx_stream = False\<rparr>\<rparr>\<rparr>,
      [LLM_extract_batch])"
  by (simp add: get_verbatim_extracts_heap_def example_agent_def example_config_def
        batch_extracts_def example_ext_def example_passages_def example_doc_def Let_def
        str_def)

theorem get_verbatim_extracts_copies_witness:
  "relevance_extractor_config (cfg example_agent)
     = Some \<lparr>rx_llm_set = False, rx_query = [], rx_segment_length = 1, rx_stream = True\<rparr>
   \<and> fst (get_verbatim_extracts_heap example_ext example_agent (str ''q'') example_passages [0, 1, 2])
       = ([3, 4], example_passages @ [example_doc ''1'' ''alp'', example_doc ''2'' ''aga''])
   \<and> take (length example_passages)
        (example_passages @ [example_doc ''1'' ''alp'', example_doc ''2'' ''aga''])
       = example_passages
   \<and> map (\<lambda>r. metadata ((example_passages @ [example_doc ''1'' ''alp'', example_doc ''2'' ''aga'']) ! r))
        [3, 4]
       = [metadata (example_passages ! 0), metadata (example_passages ! 1)]
   \<and> map (\<lambda>r. content ((example_passages @ [example_doc ''1'' ''alp'', example_doc ''2'' ''aga'']) ! r))
        [3, 4]
       = [str ''alp'', str ''aga'']"
proof -
  have h1: "relevance_extractor_config (cfg example_agent)
     = Some \<lparr>rx_llm_set = False, rx_query = [], rx_segment_length = 1, rx_stream = True\<rparr>"
    by (simp add: example_agent_def example_config_def)
  have h2: "\<forall>p \<in> set [0, 1, 2]. p < length example_passages"
    by (simp add: example_passages_def)
  have "take (length example_passages)
        (example_passages @ [example_doc ''1'' ''alp'', example_doc ''2'' ''aga''])
       = example_passages
   \<and> map (\<lambda>r. metadata ((example_passages @ [example_doc ''1'' ''alp'', example_doc ''2'' ''aga'']) ! r))
        [3, 4]
       = [metadata (example_passages ! 0), metadata (example_passages ! 1)]
   \<and> map (\<lambda>r. content ((example_passages @ [example_doc ''1'' ''alp'', example_doc ''2'' ''aga'']) ! r))
        [3, 4]
       = [str ''alp'', str ''aga'']"
    using get_verbatim_extracts_copies [OF h1 h2 example_verbatim_run]
    unfolding Let_def example_batch_extracts example_survivors
    by simp
  then show ?thesis
    using h1 example_verbatim_run by simp
qed

section \<open>No extracts, no answer synthesis\<close>


lemma bm25_events: "LLM_summary \<notin> set (snd (get_similar_chunks_bm25 X A query multiple))"
  by (simp add: get_similar_chunks_bm25_def split: option.splits)

lemma fuzzy_events: "LLM_summary \<notin> set (snd (get_fuzzy_matches X A query multiple))"
  by (simp add: get_fuzzy_matches_def split: option.splits)

lemma diversity_events: "LLM_summary \<notin> set (snd (rerank_with_diversity X A passages))"
  by (simp add: rerank_with_diversity_def Let_def split: option.splits)

lemma rerank_stages_events: "LLM_summary \<notin> set (snd (rerank_stages X A query passages))"
proof -
  let ?ps1 = "map fst (add_context_window A (map (\<lambda>p. (p, 0)) passages))"
  let ?r1 = "if cross_encoder_reranking_model (cfg A) \<noteq> []
             then rerank_with_cross_encoder X A query ?ps1 else Inr ?ps1"
  have unfold: "rerank_stages X A query passages
     = (case ?r1 of
           Inl e \<Rightarrow> (Inl e, [])
         | Inr passages \<Rightarrow>
             (case (if rerank_diversity (cfg A)
                    then rerank_with_diversity X A passages
                    else (Inr passages, [])) of
                (Inl e, ev) \<Rightarrow> (Inl e, ev)
              | (Inr passages, ev) \<Rightarrow>
                  (Inr (if rerank_periphery (cfg A)
                        then rerank_to_periphery passages
                        else passages), ev)))"
    by (simp only: rerank_stages_def Let_def)
  show ?thesis
  proof (cases ?r1)
    case (Inl e)
    then show ?thesis
      by (simp only: unfold sum.case snd_conv list.set empty_iff not_False_eq_True)
  next
    case (Inr ps2)
    let ?r2 = "if rerank_diversity (cfg A) then rerank_with_diversity X A ps2 else (Inr ps2, [])"
    obtain r ev where r2: "?r2 = (r, ev)"
      by (cases ?r2)
    have ev: "LLM_summary \<notin> set ev"
    proof (cases "rerank_diversity (cfg A)")
      case True
      then have "ev = snd (rerank_with_diversity X A ps2)"
        using r2 by simp
      then show ?thesis
        using diversity_events by simp
    next
      case False
      then show ?thesis
        using r2 by simp
    qed
    have "snd (rerank_stages X A query passages) = ev"
      by (cases r) (simp_all only: unfold Inr r2 sum.case prod.case snd_conv)
    then show ?thesis
      using ev by simp
  qed
qed


lemma merge_and_rerank_events:
  "LLM_summary \<notin> set (snd (merge_and_rerank X A query m kept))"
proof -
  let ?B = "if use_bm25_search (cfg A) then get_similar_chunks_bm25 X A query m else ([], [])"
  let ?F = "if use_fuzzy_match (cfg A) then get_fuzzy_matches X A query m else ([], [])"
  have b: "LLM_summary \<notin> set (snd ?B)"
    by (simp add: bm25_events)
  have f: "LLM_summary \<notin> set (snd ?F)"
    by (simp add: fuzzy_events)
  let ?P = "unique_passages X ((map fst kept @ map fst (fst ?B)) @ fst ?F)"
  have "snd (merge_and_rerank X A query m kept)
        = (if length ?P = 0 then snd ?B @ snd ?F
           else snd ?B @ snd ?F @ snd (rerank_stages X A query ?P))"
    by (simp add: merge_and_rerank_def Let_def case_prod_unfold)
  then show ?thesis
    using b f rerank_stages_events [of X A query ?P] by simp
qed

lemma get_relevant_chunks_events:
  "LLM_summary \<notin> set (snd (get_relevant_chunks X A query query_proxies))"
proof (cases "vecdb A")
  case None
  then show ?thesis
    by (simp add: get_relevant_chunks_def)
next
  case (Some vdb)
  show ?thesis
    unfolding get_relevant_chunks_unfold [OF Some] by (rule merge_and_rerank_events)
qed

lemma get_verbatim_extracts_events:
  "LLM_summary \<notin> set (snd (snd (get_verbatim_extracts X A query passages)))"
  by (cases "relevance_extractor_config (cfg A)")
     (simp_all add: get_verbatim_extracts_def get_verbatim_extracts_heap_def Let_def
        case_prod_unfold)

lemma hypothetical_events: "LLM_summary \<notin> set (snd (llm_hypothetical_answer X A query))"
  by (simp add: llm_hypothetical_answer_def split: option.splits)

lemma rephrase_events: "LLM_summary \<notin> set (snd (llm_rephrase_query X A query))"
  by (simp add: llm_rephrase_query_def split: option.splits)


lemma to_standalone_events: "LLM_summary \<notin> set (snd (to_standalone A query))"
  by (simp add: to_standalone_def split: option.splits)

lemma make_proxies_events: "LLM_summary \<notin> set (snd (make_proxies X A query))"
proof -
  let ?H = "if hypothetical_answer (cfg A)
            then (case llm_hypothetical_answer X A query of
                    (Inl e, ev) \<Rightarrow> (Inl e, ev)
                  | (Inr answer, ev) \<Rightarrow> (Inr [answer], ev))
            else (Inr [], [])"
  obtain h ev1 where H: "?H = (h, ev1)"
    by (cases ?H)
  have "ev1 = snd (llm_hypothetical_answer X A query) \<or> ev1 = []"
    using H by (auto split: if_splits prod.splits sum.splits)
  then have e1: "LLM_summary \<notin> set ev1"
    using hypothetical_events [of X A query] by auto
  have u: "make_proxies X A query
     = (case (h, ev1) of
        (Inl e, ev1) \<Rightarrow> (Inl e, ev1)
      | (Inr proxies, ev1) \<Rightarrow>
          (if n_query_rephrases (cfg A) > 0
           then (case llm_rephrase_query X A query of
                   (Inl e, ev2) \<Rightarrow> (Inl e, ev1 @ ev2)
                 | (Inr rephrases, ev2) \<Rightarrow> (Inr (proxies @ rephrases), ev1 @ ev2))
           else (Inr proxies, ev1)))"
    unfolding make_proxies_def H ..
  show ?thesis
  proof (cases h)
    case (Inl e)
    then show ?thesis
      unfolding u using e1 by simp
  next
    case (Inr proxies)
    obtain r ev2 where R: "llm_rephrase_query X A query = (r, ev2)"
      by (cases "llm_rephrase_query X A query")
    have e2: "LLM_summary \<notin> set ev2"
      using rephrase_events [of X A query] R by simp
    show ?thesis
      unfolding u Inr using e1 e2 R by (cases r) simp_all
  qed
qed

text \<open>Without a language model the last step raises before any extraction.\<close>

lemma extract_from_passages_no_llm:
  "llm A = None \<Longrightarrow> extract_from_passages X A query passages = (Inl AttributeError, A, [])"
  by (simp add: extract_from_passages_def)

lemma extract_from_passages_events:
  "LLM_summary \<notin> set (snd (snd (extract_from_passages X A query passages)))"
proof (cases "llm A")
  case None
  then show ?thesis
    by (simp add: extract_from_passages_def)
next
  case (Some l)
  obtain extracts A' ev where V: "get_verbatim_extracts X A query passages = (extracts, A', ev)"
    by (cases "get_verbatim_extracts X A query passages")
  have "LLM_summary \<notin> set ev"
    using get_verbatim_extracts_events [of X A query passages] V by simp
  then show ?thesis
    using Some V by (simp add: extract_from_passages_def Let_def)
qed

lemma get_relevant_extracts_events:
  "LLM_summary \<notin> set (snd (snd (get_relevant_extracts X A query)))"
proof -
  obtain s ev0 where S: "to_standalone A query = (s, ev0)"
    by (cases "to_standalone A query")
  have e0: "LLM_summary \<notin> set ev0"
    using to_standalone_events [of A query] S by simp
  show ?thesis
  proof (cases s)
    case (Inl e)
    then show ?thesis
      using S e0 by (simp add: get_relevant_extracts_def)
  next
    case (Inr q)
    obtain p ev1 where P: "make_proxies X A q = (p, ev1)"
      by (cases "make_proxies X A q")
    have e1: "LLM_summary \<notin> set ev1"
      using make_proxies_events [of X A q] P by simp
    show ?thesis
    proof (cases p)
      case (Inl e)
      then show ?thesis
        using S Inr P e0 e1 by (simp add: get_relevant_extracts_def)
    next
      case proxies: (Inr proxies)
      obtain c ev2 where C: "get_relevant_chunks X A q proxies = (c, ev2)"
        by (cases "get_relevant_chunks X A q proxies")
      have e2: "LLM_summary \<notin> set ev2"
        using get_relevant_chunks_events [of X A q proxies] C by simp
      show ?thesis
      proof (cases c)
        case (Inl e)
        then show ?thesis
          using S Inr P proxies C e0 e1 e2 by (simp add: get_relevant_extracts_def)
      next
        case passages: (Inr passages)
        obtain r A' ev3 where V: "extract_from_passages X A q passages = (r, A', ev3)"
          by (cases "extract_from_passages X A q passages")
        have e3: "LLM_summary \<notin> set ev3"
          using extract_from_passages_events [of X A q passages] V by simp
        show ?thesis
          using S Inr P proxies C passages V e0 e1 e2 e3
          by (cases r) (simp_all add: get_relevant_extracts_def)
      qed
    qed
  qed
qed

text \<open>
  C7. If the retrieval of extracts yields no extract, \<^verbatim>\<open>answer_from_docs\<close> returns the
  response whose content is the constant \<^verbatim>\<open>NO_ANSWER\<close> (source \<open>None\<close>), leaves the
  agent as the retrieval left it, and makes no call to the language model beyond those
  of the retrieval, none of which is the call for the answer synthesis.
\<close>

theorem answer_from_docs_no_extracts:
  assumes "get_relevant_extracts X A query = (Inr (query', []), A', ev)"
  shows "answer_from_docs X A query
           = (Inr \<lparr>cd_content = NO_ANSWER X, cd_source = str ''None'',
                   cd_sender = LLM, cd_cached = False\<rparr>, A', ev)
         \<and> LLM_summary \<notin> set ev"
proof
  show "answer_from_docs X A query
           = (Inr \<lparr>cd_content = NO_ANSWER X, cd_source = str ''None'',
                   cd_sender = LLM, cd_cached = False\<rparr>, A', ev)"
    using assms by (simp add: answer_from_docs_def)
  show "LLM_summary \<notin> set ev"
    using get_relevant_extracts_events [of X A query] assms by simp
qed


lemma unique_docs_and_scores_frame:
  "unique_docs_and_scores (X\<lparr>run_batch_tasks := f\<rparr>) hits = unique_docs_and_scores X hits"
  by (simp add: unique_docs_and_scores_def)

lemma unique_passages_frame:
  "unique_passages (X\<lparr>run_batch_tasks := f\<rparr>) passages = unique_passages X passages"
  by (simp add: unique_passages_def)

lemma get_similar_chunks_bm25_frame:
  "get_similar_chunks_bm25 (X\<lparr>run_batch_tasks := f\<rparr>) A query multiple
   = get_similar_chunks_bm25 X A query multiple"
  by (simp add: get_similar_chunks_bm25_def split: option.splits)

lemma get_fuzzy_matches_frame:
  "get_fuzzy_matches (X\<lparr>run_batch_tasks := f\<rparr>) A query multiple
   = get_fuzzy_matches X A query multiple"
  by (simp add: get_fuzzy_matches_def split: option.splits)

lemma logistic_frame: "logistic (X\<lparr>run_batch_tasks := f\<rparr>) = logistic X"
  by (rule ext) (simp add: logistic_def)

lemma avg_similarity_to_result_frame:
  "avg_similarity_to_result (X\<lparr>run_batch_tasks := f\<rparr>) = avg_similarity_to_result X"
  by (intro ext) (simp add: avg_similarity_to_result_def)

lemma rerank_with_cross_encoder_frame:
  "rerank_with_cross_encoder (X\<lparr>run_batch_tasks := f\<rparr>) A query passages
   = rerank_with_cross_encoder X A query passages"
  by (simp add: rerank_with_cross_encoder_def logistic_frame split: option.splits)

lemma rerank_with_diversity_frame:
  "rerank_with_diversity (X\<lparr>run_batch_tasks := f\<rparr>) A passages
   = rerank_with_diversity X A passages"
  by (simp add: rerank_with_diversity_def avg_similarity_to_result_frame Let_def
        split: option.splits)

lemma rerank_stages_frame:
  "rerank_stages (X\<lparr>run_batch_tasks := f\<rparr>) A query passages
   = rerank_stages X A query passages"
  by (simp only: rerank_stages_def rerank_with_cross_encoder_frame rerank_with_diversity_frame)

lemma merge_and_rerank_frame:
  "merge_and_rerank (X\<lparr>run_batch_tasks := f\<rparr>) A query m kept
   = merge_and_rerank X A query m kept"
  by (simp only: merge_and_rerank_def rerank_stages_frame unique_passages_frame
        get_similar_chunks_bm25_frame get_fuzzy_matches_frame)

lemma get_relevant_chunks_frame:
  "get_relevant_chunks (X\<lparr>run_batch_tasks := f\<rparr>) A query query_proxies
   = get_relevant_chunks X A query query_proxies"
  by (simp only: get_relevant_chunks_def merge_and_rerank_frame unique_docs_and_scores_frame)

lemma silent_verbatim:
  "get_verbatim_extracts silent_ext
     (example_agent\<lparr>cfg := example_config\<lparr>n_neighbor_chunks := 1\<rparr>\<rparr>) (str ''q'')
     [example_doc ''1'' ''again+'', example_doc ''2'' ''beta+'']
   = ([],
      example_agent\<lparr>cfg := example_config\<lparr>n_neighbor_chunks := 1,
         relevance_extractor_config :=
           Some \<lparr>rx_llm_set = True, rx_query = str ''q'', rx_segment_length = 1,
                 rx_stream = False\<rparr>\<rparr>\<rparr>,
      [LLM_extract_batch])"
  by (simp add: get_verbatim_extracts_def get_verbatim_extracts_heap_def batch_extracts_def
        silent_ext_def example_ext_def example_agent_def example_config_def Let_def str_def)

lemma silent_extracts:
  "get_relevant_extracts silent_ext
     (example_agent\<lparr>cfg := example_config\<lparr>n_neighbor_chunks := 1\<rparr>\<rparr>) (str ''q'')
   = (Inr (str ''q'', []),
      example_agent\<lparr>cfg := example_config\<lparr>n_neighbor_chunks := 1,
         relevance_extractor_config :=
           Some \<lparr>rx_llm_set = True, rx_query = str ''q'', rx_segment_length = 1,
                 rx_stream = False\<rparr>\<rparr>\<rparr>,
      [Warning ''No chunked docs; cannot use bm25-similarity'', LLM_extract_batch])"
proof -
  let ?A = "example_agent\<lparr>cfg := example_config\<lparr>n_neighbor_chunks := 1\<rparr>\<rparr>"
  have s: "to_standalone ?A (str ''q'') = (Inr (str ''q''), [])"
    by (simp add: to_standalone_def example_agent_def)
  have p: "make_proxies silent_ext ?A (str ''q'') = (Inr [], [])"
    by (simp add: make_proxies_def example_config_def)
  have c: "get_relevant_chunks silent_ext ?A (str ''q'') []
           = (Inr [example_doc ''1'' ''again+'', example_doc ''2'' ''beta+''],
              [Warning ''No chunked docs; cannot use bm25-similarity''])"
    unfolding silent_ext_def get_relevant_chunks_frame by (rule expanded_get_relevant_chunks)
  have l: "llm ?A = Some \<lparr>followup_to_standalone = (\<lambda>dialog query. query)\<rparr>"
    by (simp add: example_agent_def)
  have e: "extract_from_passages silent_ext ?A (str ''q'')
             [example_doc ''1'' ''again+'', example_doc ''2'' ''beta+'']
           = (Inr [],
              example_agent\<lparr>cfg := example_config\<lparr>n_neighbor_chunks := 1,
                 relevance_extractor_config :=
                   Some \<lparr>rx_llm_set = True, rx_query = str ''q'', rx_segment_length = 1,
                         rx_stream = False\<rparr>\<rparr>\<rparr>,
              [LLM_extract_batch])"
    unfolding extract_from_passages_def l option.case silent_verbatim by simp
  show ?thesis
    unfolding get_relevant_extracts_def s p c prod.case sum.case e by simp
qed

theorem answer_from_docs_no_extracts_witness:
  "get_relevant_extracts silent_ext
     (example_agent\<lparr>cfg := example_config\<lparr>n_neighbor_chunks := 1\<rparr>\<rparr>) (str ''q'')
     = (Inr (str ''q'', []),
        example_agent\<lparr>cfg := example_config\<lparr>n_neighbor_chunks := 1,
           relevance_extractor_config :=
             Some \<lparr>rx_llm_set = True, rx_query = str ''q'', rx_segment_length = 1,
                   rx_stream = False\<rparr>\<rparr>\<rparr>,
        [Warning ''No chunked docs; cannot use bm25-similarity'', LLM_extract_batch])
   \<and> answer_from_docs silent_ext
       (example_agent\<lparr>cfg := example_config\<lparr>n_neighbor_chunks := 1\<rparr>\<rparr>) (str ''q'')
     = (Inr \<lparr>cd_content = str ''DO-NOT-KNOW'', cd_source = str ''None'',
             cd_sender = LLM, cd_cached = False\<rparr>,
        example_agent\<lparr>cfg := example_config\<lparr>n_neighbor_chunks := 1,
           relevance_extractor_config :=
             Some \<lparr>rx_llm_set = True, rx_query = str ''q'', rx_segment_length = 1,
                   rx_stream = False\<rparr>\<rparr>\<rparr>,
        [Warning ''No chunked docs; cannot use bm25-similarity'', LLM_extract_batch])"
proof -
  have "NO_ANSWER silent_ext = str ''DO-NOT-KNOW''"
    by (simp add: silent_ext_def example_ext_def)
  then show ?thesis
    using answer_from_docs_no_extracts [OF silent_extracts] silent_extracts by simp
qed

end
